theory Spec2Isabelle
  imports Main "HOL-Library.AList"
begin

section \<open>Values exchanged with clients\<close>

text \<open>
  The socket handlers read fields of whatever \<open>JSON.parse\<close> returns, so parsed payloads
  are kept as JSON values. The numbers of a payload are integers here: timestamps and
  TTLs are counts of milliseconds; fractions and infinities are outside this development.
  \<open>JObj\<close> lists the properties of a parsed object, each name once. A string is the
  list of the bytes of its UTF-8 encoding.
\<close>

datatype json =
    JNull
  | JBool bool
  | JNum int
  | JStr string
  | JArr "json list"
  | JObj "(string \<times> json) list"

text \<open>JavaScript truthiness of a parsed value (the operand of \<open>&&\<close> and \<open>||\<close>).\<close>

fun truthy :: "json \<Rightarrow> bool" where
  "truthy JNull = False"
| "truthy (JBool b) = b"
| "truthy (JNum n) = (n \<noteq> 0)"
| "truthy (JStr s) = (s \<noteq> [])"
| "truthy (JArr xs) = True"
| "truthy (JObj kvs) = True"

text \<open>
  A JavaScript number as the store computes with it: an integer, or \<open>NaN\<close>, which is what
  \<open>Math.max\<close> yields for an argument that is not numeric. Arithmetic with \<open>NaN\<close> gives
  \<open>NaN\<close> and every comparison with \<open>NaN\<close> is false.
\<close>

datatype number = Finite int | NaN

fun jsMax :: "number \<Rightarrow> number \<Rightarrow> number" where
  "jsMax (Finite a) (Finite b) = Finite (max a b)"
| "jsMax a b = NaN"

fun jsAdd :: "number \<Rightarrow> number \<Rightarrow> number" where
  "jsAdd (Finite a) (Finite b) = Finite (a + b)"
| "jsAdd a b = NaN"

fun jsSub :: "number \<Rightarrow> number \<Rightarrow> number" where
  "jsSub (Finite a) (Finite b) = Finite (a - b)"
| "jsSub a b = NaN"

fun jsLe :: "number \<Rightarrow> number \<Rightarrow> bool" where
  "jsLe (Finite a) (Finite b) = (a \<le> b)"
| "jsLe a b = False"

fun jsLt :: "number \<Rightarrow> number \<Rightarrow> bool" where
  "jsLt (Finite a) (Finite b) = (a < b)"
| "jsLt a b = False"

section \<open>presenceStore.ts\<close>

text \<open>
  \<open>PresenceStatus\<close> is a TypeScript annotation and is erased at run time: the HTTP route
  stores one of the three strings its schema admits, the socket handlers store
  \<open>msg.status || "online"\<close> unchecked. The field therefore holds a JSON value.
  \<open>metadata\<close> is optional; \<open>None\<close> is \<open>undefined\<close>.
\<close>

record PresenceRecord =
  userId :: string
  status :: json
  lastSeen :: int
  expiresAt :: number
  metadata :: "json option"

record PresenceSnapshot = PresenceRecord +
  isOnline :: bool
  ttlMs :: number

type_synonym conn = nat

record userEntry =
  entryUserId :: string
  entryStatus :: json
  entryLastSeen :: int
  entryMetadata :: json

datatype outmsg =
    HeartbeatAck string
  | ErrorReply
  | PresenceResponse "json option" "userEntry list"
  | FriendsPresenceUpdate "userEntry list"

text \<open>
  The state of the process. \<open>Date.now()\<close> is read several times inside one operation, so
  the clock is a sequence of readings: the \<open>n\<close>-th call returns \<open>clock n\<close> and \<open>ticks\<close>
  counts the calls made so far. \<open>store_ttlMs\<close> and \<open>store\<close> are the two fields of the
  \<open>PresenceStore\<close> instance. \<open>subscriptions\<close> is the module-level \<open>Map\<close> of the socket
  server in insertion order, keyed by connection; \<open>connUserId\<close> is the \<open>userId\<close> variable
  captured by each connection's handlers (\<open>None\<close> is \<open>null\<close>). \<open>readyOpen\<close> and
  \<open>sendThrows\<close> describe the sockets: whether \<open>readyState\<close> is \<open>OPEN\<close> and whether
  \<open>ws.send\<close> throws; \<open>sent\<close> logs every message a \<open>ws.send\<close> call accepted.
  \<open>presenceSecret\<close> is \<open>config.PRESENCE_SECRET\<close>. \<open>toNumber\<close> is the number JavaScript
  reads from a string or an array (through its string form) when \<open>Math.max\<close> coerces a
  \<open>ttlMs\<close> of that kind; it is \<open>NaN\<close> unless the text is a numeric literal.
\<close>

record world =
  clock :: "nat \<Rightarrow> int"
  ticks :: nat
  store_ttlMs :: int
  store :: "string \<rightharpoonup> PresenceRecord"
  subscriptions :: "(conn \<times> string set) list"
  connUserId :: "conn \<Rightarrow> json option"
  readyOpen :: "conn \<Rightarrow> bool"
  sendThrows :: "conn \<Rightarrow> bool"
  sent :: "(conn \<times> outmsg) list"
  presenceSecret :: "string option"
  toNumber :: "json \<Rightarrow> number"

definition dateNow :: "world \<Rightarrow> int \<times> world" where
  "dateNow w = (clock w (ticks w), w\<lparr>ticks := Suc (ticks w)\<rparr>)"

definition isExpired :: "world \<Rightarrow> PresenceRecord \<Rightarrow> bool \<times> world" where
  "isExpired w record =
     (let (now, w1) = dateNow w in (jsLe (expiresAt record) (Finite now), w1))"

definition toSnapshot :: "world \<Rightarrow> PresenceRecord \<Rightarrow> PresenceSnapshot \<times> world" where
  "toSnapshot w record =
     (let (now, w1) = dateNow w;
          ttl = jsMax (Finite 0) (jsSub (expiresAt record) (Finite now))
      in (\<lparr>userId = userId record, status = status record, lastSeen = lastSeen record,
           expiresAt = expiresAt record, metadata = metadata record,
           isOnline = jsLt (Finite 0) ttl, ttlMs = ttl\<rparr>, w1))"

text \<open>
  \<open>upsert(userId, status, overrides?)\<close>: the two optional members of \<open>overrides\<close> are the
  last two arguments.
\<close>

definition upsert ::
  "world \<Rightarrow> string \<Rightarrow> json \<Rightarrow> number option \<Rightarrow> json option \<Rightarrow> PresenceSnapshot \<times> world" where
  "upsert w uid st ttlOverride md =
     (let (now, w1) = dateNow w;
          effectiveTtl = jsMax (Finite 1000)
                           (case ttlOverride of Some t \<Rightarrow> t | None \<Rightarrow> Finite (store_ttlMs w1));
          record = \<lparr>userId = uid, status = st, lastSeen = now,
                    expiresAt = jsAdd (Finite now) effectiveTtl, metadata = md\<rparr>
      in toSnapshot (w1\<lparr>store := (store w1)(uid \<mapsto> record)\<rparr>) record)"

definition markOffline :: "world \<Rightarrow> string \<Rightarrow> world" where
  "markOffline w uid = w\<lparr>store := (store w)(uid := None)\<rparr>"

definition getOne :: "world \<Rightarrow> string \<Rightarrow> PresenceSnapshot option \<times> world" where
  "getOne w uid =
     (case store w uid of
        None \<Rightarrow> (None, w)
      | Some record \<Rightarrow>
          (let (expired, w1) = isExpired w record in
           if expired then (None, w1\<lparr>store := (store w1)(uid := None)\<rparr>)
           else (let (snap, w2) = toSnapshot w1 record in (Some snap, w2))))"

text \<open>\<open>Array.from(new Set(userIds))\<close>: a \<open>Set\<close> keeps each value at its first insertion.\<close>

definition dedupe :: "string list \<Rightarrow> string list" where
  "dedupe ids = foldl (\<lambda>acc x. if x \<in> set acc then acc else acc @ [x]) [] ids"

text \<open>\<open>deduped.map((userId) => this.getOne(userId))\<close>, left to right.\<close>

fun getEach :: "world \<Rightarrow> string list \<Rightarrow> PresenceSnapshot option list \<times> world" where
  "getEach w [] = ([], w)"
| "getEach w (uid # rest) =
     (let (r, w1) = getOne w uid;
          (rs, w2) = getEach w1 rest
      in (r # rs, w2))"

definition getMany :: "world \<Rightarrow> string list \<Rightarrow> PresenceSnapshot list \<times> world" where
  "getMany w userIds =
     (let (rs, w1) = getEach w (dedupe userIds)
      in (List.map_filter (\<lambda>r. r) rs, w1))"

section \<open>The socket server with a subscription registry\<close>

text \<open>
  \<open>ws.send\<close> either throws (\<open>None\<close>) or accepts the message, which is then logged
  against the connection.
\<close>

definition wsSend :: "world \<Rightarrow> conn \<Rightarrow> outmsg \<Rightarrow> world option" where
  "wsSend w ws m = (if sendThrows w ws then None else Some (w\<lparr>sent := sent w @ [(ws, m)]\<rparr>))"

definition presenceUpdate :: "string \<Rightarrow> json \<Rightarrow> int \<Rightarrow> outmsg" where
  "presenceUpdate friendId st ls =
     FriendsPresenceUpdate
       [\<lparr>entryUserId = friendId, entryStatus = st, entryLastSeen = ls, entryMetadata = JNull\<rparr>]"

text \<open>
  The loop of \<open>notifySubscribers\<close> over \<open>subscriptions.entries()\<close>. The only change the body
  makes to the map is deleting the entry being visited, so the entries still to visit
  are those of the map as it was when the loop began.
\<close>

fun notifyLoop :: "(conn \<times> string set) list \<Rightarrow> string \<Rightarrow> outmsg \<Rightarrow> world \<Rightarrow> world" where
  "notifyLoop [] friendId update w = w"
| "notifyLoop ((ws, friendIds) # rest) friendId update w =
     notifyLoop rest friendId update
       (if friendId \<in> friendIds \<and> readyOpen w ws then
          (case wsSend w ws update of
             Some w1 \<Rightarrow> w1
           | None \<Rightarrow> w\<lparr>subscriptions := AList.delete ws (subscriptions w)\<rparr>)
        else w)"

definition notifySubscribers :: "world \<Rightarrow> string \<Rightarrow> json \<Rightarrow> int \<Rightarrow> world" where
  "notifySubscribers w friendId st ls =
     notifyLoop (subscriptions w) friendId (presenceUpdate friendId st ls) w"

text \<open>
  Reading a property of a parsed message. Only \<open>type\<close>, \<open>userId\<close>, \<open>status\<close>, \<open>ttlMs\<close>,
  \<open>metadata\<close>, \<open>userIds\<close>, \<open>friendIds\<close> and \<open>requestId\<close> are ever read; on a number, a
  string, a boolean or an array these are \<open>undefined\<close> (\<open>None\<close>). Reading a property of
  \<open>null\<close> throws and is handled where the message is first inspected.
\<close>

fun getProp :: "json \<Rightarrow> string \<Rightarrow> json option" where
  "getProp (JObj kvs) k = map_of kvs k"
| "getProp v k = None"

text \<open>\<open>a || b\<close> on a property that may be missing.\<close>

definition orElse :: "json option \<Rightarrow> json \<Rightarrow> json" where
  "orElse v d = (case v of Some x \<Rightarrow> (if truthy x then x else d) | None \<Rightarrow> d)"

definition isTruthy :: "json option \<Rightarrow> bool" where
  "isTruthy v = (case v of Some x \<Rightarrow> truthy x | None \<Rightarrow> False)"

text \<open>\<open>arr.filter((id) => typeof id === "string")\<close>.\<close>

fun onlyStrings :: "json list \<Rightarrow> string list" where
  "onlyStrings [] = []"
| "onlyStrings (JStr s # rest) = s # onlyStrings rest"
| "onlyStrings (v # rest) = onlyStrings rest"

text \<open>
  The number \<open>Math.max\<close> reads from the argument \<open>msg.ttlMs || 60000\<close>: a number is itself,
  \<open>true\<close> is 1, an object is \<open>NaN\<close>, a string or an array is read through its string
  form.
\<close>

definition ttlArg :: "world \<Rightarrow> json \<Rightarrow> number" where
  "ttlArg w msg =
     (case orElse (getProp msg ''ttlMs'') (JNum 60000) of
        JNum n \<Rightarrow> Finite n
      | JBool b \<Rightarrow> Finite (if b then 1 else 0)
      | JNull \<Rightarrow> Finite 0
      | JObj kvs \<Rightarrow> NaN
      | v \<Rightarrow> toNumber w v)"

text \<open>The object built for each record in the \<open>presence-response\<close> and subscribe replies.\<close>

definition presenceEntry :: "PresenceSnapshot \<Rightarrow> userEntry" where
  "presenceEntry record =
     \<lparr>entryUserId = userId record,
      entryStatus = (if isOnline record then status record else JStr ''offline''),
      entryLastSeen = lastSeen record,
      entryMetadata = (case metadata record of Some m \<Rightarrow> m | None \<Rightarrow> JNull)\<rparr>"

text \<open>\<open>record?.lastSeen || Date.now()\<close>: the clock is read only when the left side is falsy.\<close>

definition lastSeenOrNow :: "PresenceSnapshot option \<Rightarrow> world \<Rightarrow> int \<times> world" where
  "lastSeenOrNow record w =
     (case record of
        Some r \<Rightarrow> (if lastSeen r \<noteq> 0 then (lastSeen r, w) else dateNow w)
      | None \<Rightarrow> dateNow w)"

text \<open>
  The body of the \<open>try\<close> block of the message handler, after \<open>JSON.parse\<close> has returned a
  value other than \<open>null\<close>. \<open>Inl\<close> is an exception, carrying the state reached when it was
  thrown; \<open>Inr\<close> is normal completion.
\<close>

definition wsHeartbeat :: "world \<Rightarrow> conn \<Rightarrow> json \<Rightarrow> json \<Rightarrow> world + world" where
  "wsHeartbeat w ws msg uidV =
     (let w1 = w\<lparr>connUserId := (connUserId w)(ws := Some uidV)\<rparr>;
          st = orElse (getProp msg ''status'') (JStr ''online'')
      in case uidV of
           JStr uid \<Rightarrow>
             (let (record, w2) = upsert w1 uid st (Some (ttlArg w1 msg))
                                   (Some (orElse (getProp msg ''metadata'') (JObj [])))
              in case wsSend w2 ws (HeartbeatAck uid) of
                   None \<Rightarrow> Inl w2
                 | Some w3 \<Rightarrow>
                     Inr (notifySubscribers w3 uid
                            (if isOnline record then status record else JStr ''offline'')
                            (lastSeen record)))
         | _ \<Rightarrow> Inr w1)"

definition wsOffline :: "world \<Rightarrow> conn \<Rightarrow> json \<Rightarrow> world + world" where
  "wsOffline w ws uidV =
     (let w1 = w\<lparr>connUserId := (connUserId w)(ws := Some uidV)\<rparr>
      in case uidV of
           JStr uid \<Rightarrow>
             (let (record, w2) = getOne w1 uid;
                  (ls, w3) = lastSeenOrNow record w2;
                  w4 = markOffline w3 uid
              in Inr (notifySubscribers w4 uid (JStr ''offline'') ls))
         | _ \<Rightarrow> Inr w1)"

definition wsQueryPresence :: "world \<Rightarrow> conn \<Rightarrow> json \<Rightarrow> json list \<Rightarrow> world + world" where
  "wsQueryPresence w ws msg arr =
     (let (records, w1) = getMany w (onlyStrings arr)
      in case wsSend w1 ws (PresenceResponse (getProp msg ''requestId'') (map presenceEntry records)) of
           None \<Rightarrow> Inl w1
         | Some w2 \<Rightarrow> Inr w2)"

definition wsSubscribeFriends :: "world \<Rightarrow> conn \<Rightarrow> json list \<Rightarrow> world + world" where
  "wsSubscribeFriends w ws arr =
     (let friendIds = onlyStrings arr;
          w1 = w\<lparr>subscriptions :=
                  (case map_of (subscriptions w) ws of
                     Some sub \<Rightarrow> AList.update ws (set friendIds) (subscriptions w)
                   | None \<Rightarrow> subscriptions w @ [(ws, set friendIds)])\<rparr>;
          (records, w2) = getMany w1 friendIds
      in case wsSend w2 ws (FriendsPresenceUpdate (map presenceEntry records)) of
           None \<Rightarrow> Inl w2
         | Some w3 \<Rightarrow> Inr w3)"

definition wsDispatch :: "world \<Rightarrow> conn \<Rightarrow> json \<Rightarrow> world + world" where
  "wsDispatch w ws msg =
     (if getProp msg ''type'' = Some (JStr ''heartbeat'') \<and> isTruthy (getProp msg ''userId'') then
        wsHeartbeat w ws msg (the (getProp msg ''userId''))
      else if getProp msg ''type'' = Some (JStr ''offline'') \<and> isTruthy (getProp msg ''userId'') then
        wsOffline w ws (the (getProp msg ''userId''))
      else if getProp msg ''type'' = Some (JStr ''query-presence'') then
        (case getProp msg ''userIds'' of
           Some (JArr arr) \<Rightarrow> wsQueryPresence w ws msg arr
         | _ \<Rightarrow> Inr w)
      else if getProp msg ''type'' = Some (JStr ''subscribe-friends'') then
        (case getProp msg ''friendIds'' of
           Some (JArr arr) \<Rightarrow> wsSubscribeFriends w ws arr
         | _ \<Rightarrow> Inr w)
      else if getProp msg ''type'' = Some (JStr ''unsubscribe-friends'') then
        Inr (w\<lparr>subscriptions := AList.delete ws (subscriptions w)\<rparr>)
      else Inr w)"

text \<open>
  The \<open>message\<close> listener. Its argument is what \<open>JSON.parse(data.toString())\<close> yields:
  \<open>None\<close> when it throws. The \<open>catch\<close> block sends the error reply; an exception thrown by
  that send leaves the listener (\<open>Uncaught\<close>).
\<close>

datatype outcome = Returned | Uncaught

definition wsCatch :: "world \<Rightarrow> conn \<Rightarrow> outcome \<times> world" where
  "wsCatch w ws = (case wsSend w ws ErrorReply of Some w1 \<Rightarrow> (Returned, w1) | None \<Rightarrow> (Uncaught, w))"

definition wsOnMessage :: "world \<Rightarrow> conn \<Rightarrow> json option \<Rightarrow> outcome \<times> world" where
  "wsOnMessage w ws parsed =
     (case parsed of
        None \<Rightarrow> wsCatch w ws
      | Some JNull \<Rightarrow> wsCatch w ws
      | Some msg \<Rightarrow>
          (case wsDispatch w ws msg of
             Inl w1 \<Rightarrow> wsCatch w1 ws
           | Inr w1 \<Rightarrow> (Returned, w1)))"

text \<open>
  The \<open>close\<close> listener. When the captured \<open>userId\<close> is not a string (a heartbeat carried a
  number, say) the store holds nothing under it and no subscription set contains it:
  the lookup finds nothing, the clock is read once for \<open>lastSeen\<close>, and neither the
  removal nor the broadcast has an effect.
\<close>

definition wsOnClose :: "world \<Rightarrow> conn \<Rightarrow> world" where
  "wsOnClose w ws =
     (let w1 = w\<lparr>subscriptions := AList.delete ws (subscriptions w)\<rparr>
      in case connUserId w1 ws of
           None \<Rightarrow> w1
         | Some (JStr uid) \<Rightarrow>
             (let (record, w2) = getOne w1 uid;
                  (ls, w3) = lastSeenOrNow record w2;
                  w4 = markOffline w3 uid
              in notifySubscribers w4 uid (JStr ''offline'') ls)
         | Some v \<Rightarrow> snd (dateNow w1))"

section \<open>src/wsServer.ts: the socket server without a registry\<close>

definition wsServerDispatch :: "world \<Rightarrow> conn \<Rightarrow> json \<Rightarrow> world + world" where
  "wsServerDispatch w ws msg =
     (if getProp msg ''type'' = Some (JStr ''heartbeat'') \<and> isTruthy (getProp msg ''userId'') then
        (let uidV = the (getProp msg ''userId'');
             w1 = w\<lparr>connUserId := (connUserId w)(ws := Some uidV)\<rparr>;
             st = orElse (getProp msg ''status'') (JStr ''online'')
         in case uidV of
              JStr uid \<Rightarrow>
                (let (record, w2) = upsert w1 uid st (Some (ttlArg w1 msg))
                                      (Some (orElse (getProp msg ''metadata'') (JObj [])))
                 in case wsSend w2 ws (HeartbeatAck uid) of
                      None \<Rightarrow> Inl w2
                    | Some w3 \<Rightarrow> Inr w3)
            | _ \<Rightarrow> Inr w1)
      else if getProp msg ''type'' = Some (JStr ''offline'') \<and> isTruthy (getProp msg ''userId'') then
        (let uidV = the (getProp msg ''userId'');
             w1 = w\<lparr>connUserId := (connUserId w)(ws := Some uidV)\<rparr>
         in case uidV of
              JStr uid \<Rightarrow> Inr (markOffline w1 uid)
            | _ \<Rightarrow> Inr w1)
      else if getProp msg ''type'' = Some (JStr ''query-presence'') then
        (case getProp msg ''userIds'' of
           Some (JArr arr) \<Rightarrow> wsQueryPresence w ws msg arr
         | _ \<Rightarrow> Inr w)
      else if getProp msg ''type'' = Some (JStr ''subscribe-friends'') then
        (case getProp msg ''friendIds'' of
           Some (JArr arr) \<Rightarrow>
             (let (records, w1) = getMany w (onlyStrings arr)
              in case wsSend w1 ws (FriendsPresenceUpdate (map presenceEntry records)) of
                   None \<Rightarrow> Inl w1
                 | Some w2 \<Rightarrow> Inr w2)
         | _ \<Rightarrow> Inr w)
      else Inr w)"

definition wsServerOnMessage :: "world \<Rightarrow> conn \<Rightarrow> json option \<Rightarrow> outcome \<times> world" where
  "wsServerOnMessage w ws parsed =
     (case parsed of
        None \<Rightarrow> wsCatch w ws
      | Some JNull \<Rightarrow> wsCatch w ws
      | Some msg \<Rightarrow>
          (case wsServerDispatch w ws msg of
             Inl w1 \<Rightarrow> wsCatch w1 ws
           | Inr w1 \<Rightarrow> (Returned, w1)))"

definition wsServerOnClose :: "world \<Rightarrow> conn \<Rightarrow> world" where
  "wsServerOnClose w ws =
     (case connUserId w ws of
        Some (JStr uid) \<Rightarrow> markOffline w uid
      | _ \<Rightarrow> w)"

section \<open>src/server.ts: the two presence routes that write\<close>

text \<open>
  \<open>requireSecret\<close>: \<open>True\<close> when the request goes on to the route. The second argument is
  the \<open>x-presence-secret\<close> header.
\<close>

definition requireSecret :: "world \<Rightarrow> string option \<Rightarrow> bool" where
  "requireSecret w headerSecret =
     (case presenceSecret w of
        None \<Rightarrow> True
      | Some secret \<Rightarrow>
          (if secret = [] then True
           else (case headerSecret of
                   None \<Rightarrow> False
                 | Some h \<Rightarrow> h \<noteq> [] \<and> h = secret)))"

text \<open>
  \<open>heartbeatSchema.safeParse\<close>, following the schema's declaration: a non-empty string
  \<open>userId\<close>; \<open>status\<close> one of three strings, \<open>online\<close> when missing; an optional positive
  integer \<open>ttlMs\<close>; an optional \<open>metadata\<close> object of strings, numbers and booleans.
  \<open>None\<close> is a failed parse.
\<close>

record heartbeatPayload =
  hbUserId :: string
  hbStatus :: json
  hbTtlMs :: "int option"
  hbMetadata :: "json option"

definition parseStatus :: "json option \<Rightarrow> json option" where
  "parseStatus v =
     (case v of
        None \<Rightarrow> Some (JStr ''online'')
      | Some (JStr s) \<Rightarrow> (if s \<in> set [''online'', ''away'', ''busy''] then Some (JStr s) else None)
      | Some _ \<Rightarrow> None)"

definition parseTtlMs :: "json option \<Rightarrow> int option option" where
  "parseTtlMs v =
     (case v of
        None \<Rightarrow> Some None
      | Some (JNum n) \<Rightarrow> (if n > 0 then Some (Some n) else None)
      | Some _ \<Rightarrow> None)"

fun isScalar :: "json \<Rightarrow> bool" where
  "isScalar (JStr s) = True"
| "isScalar (JNum n) = True"
| "isScalar (JBool b) = True"
| "isScalar v = False"

definition parseMetadata :: "json option \<Rightarrow> json option option" where
  "parseMetadata v =
     (case v of
        None \<Rightarrow> Some None
      | Some (JObj kvs) \<Rightarrow> (if list_all (\<lambda>kv. isScalar (snd kv)) kvs then Some (Some (JObj kvs)) else None)
      | Some _ \<Rightarrow> None)"

definition heartbeatSchema :: "json \<Rightarrow> heartbeatPayload option" where
  "heartbeatSchema body =
     (case body of
        JObj kvs \<Rightarrow>
          (case map_of kvs ''userId'' of
             Some (JStr uid) \<Rightarrow>
               (if uid = [] then None
                else (case (parseStatus (map_of kvs ''status''),
                            parseTtlMs (map_of kvs ''ttlMs''),
                            parseMetadata (map_of kvs ''metadata'')) of
                        (Some st, Some ttl, Some md) \<Rightarrow>
                          Some \<lparr>hbUserId = uid, hbStatus = st, hbTtlMs = ttl, hbMetadata = md\<rparr>
                      | _ \<Rightarrow> None))
           | _ \<Rightarrow> None)
      | _ \<Rightarrow> None)"

datatype httpResponse =
    Status401
  | Status400
  | Status204
  | HeartbeatJson string json number int "json option"

text \<open>
  \<open>POST /presence/heartbeat\<close>. \<open>logPresence\<close> only writes to the console and is left out.
\<close>

definition postPresenceHeartbeat :: "world \<Rightarrow> string option \<Rightarrow> json \<Rightarrow> httpResponse \<times> world" where
  "postPresenceHeartbeat w headerSecret body =
     (if \<not> requireSecret w headerSecret then (Status401, w)
      else (case heartbeatSchema body of
              None \<Rightarrow> (Status400, w)
            | Some payload \<Rightarrow>
                (let (record, w1) = upsert w (hbUserId payload) (hbStatus payload)
                                      (map_option Finite (hbTtlMs payload)) (hbMetadata payload)
                 in (HeartbeatJson (userId record) (status record) (ttlMs record)
                       (lastSeen record) (metadata record), w1))))"

text \<open>
  \<open>String.prototype.trim\<close>. \<open>whiteSpace\<close> lists the UTF-8 encodings of the characters it
  strips: the white space and line terminators of the language (tab, line feed,
  vertical tab, form feed, carriage return, space, U+00A0, U+1680, U+2000 to U+200A,
  U+2028, U+2029, U+202F, U+205F, U+3000 and U+FEFF). \<open>stripLeading\<close> removes such
  sequences from the front for as long as one is there.
\<close>

definition whiteSpace :: "string list" where
  "whiteSpace =
     [[CHR 0x09], [CHR 0x0A], [CHR 0x0B], [CHR 0x0C], [CHR 0x0D], [CHR 0x20],
      [CHR 0xC2, CHR 0xA0], [CHR 0xE1, CHR 0x9A, CHR 0x80],
      [CHR 0xE2, CHR 0x80, CHR 0x80], [CHR 0xE2, CHR 0x80, CHR 0x81],
      [CHR 0xE2, CHR 0x80, CHR 0x82], [CHR 0xE2, CHR 0x80, CHR 0x83],
      [CHR 0xE2, CHR 0x80, CHR 0x84], [CHR 0xE2, CHR 0x80, CHR 0x85],
      [CHR 0xE2, CHR 0x80, CHR 0x86], [CHR 0xE2, CHR 0x80, CHR 0x87],
      [CHR 0xE2, CHR 0x80, CHR 0x88], [CHR 0xE2, CHR 0x80, CHR 0x89],
      [CHR 0xE2, CHR 0x80, CHR 0x8A], [CHR 0xE2, CHR 0x80, CHR 0xA8],
      [CHR 0xE2, CHR 0x80, CHR 0xA9], [CHR 0xE2, CHR 0x80, CHR 0xAF],
      [CHR 0xE2, CHR 0x81, CHR 0x9F], [CHR 0xE3, CHR 0x80, CHR 0x80],
      [CHR 0xEF, CHR 0xBB, CHR 0xBF]]"

function stripLeading :: "string list \<Rightarrow> string \<Rightarrow> string" where
  "stripLeading seqs s =
     (case List.find (\<lambda>sp. sp \<noteq> [] \<and> take (length sp) s = sp) seqs of
        None \<Rightarrow> s
      | Some sp \<Rightarrow> stripLeading seqs (drop (length sp) s))"
  by pat_completeness auto
termination
proof (relation "measure (\<lambda>(seqs, s). length s)")
  show "wf (measure (\<lambda>(seqs, s). length s))" by simp
next
  fix seqs :: "string list" and s sp :: string
  assume "List.find (\<lambda>sp. sp \<noteq> [] \<and> take (length sp) s = sp) seqs = Some sp"
  then have ne: "sp \<noteq> []" and tk: "take (length sp) s = sp"
    by (auto simp: find_Some_iff)
  have "length (take (length sp) s) = length sp"
    using tk by simp
  then have "length sp \<le> length s"
    by simp
  with ne have "length (drop (length sp) s) < length s"
    by (cases sp) simp_all
  then show "((seqs, drop (length sp) s), (seqs, s)) \<in> measure (\<lambda>(seqs, s). length s)"
    by simp
qed

definition trim :: "string \<Rightarrow> string" where
  "trim s = rev (stripLeading (map rev whiteSpace) (rev (stripLeading whiteSpace s)))"

text \<open>\<open>POST /presence/offline\<close>.\<close>

definition postPresenceOffline :: "world \<Rightarrow> string option \<Rightarrow> json \<Rightarrow> httpResponse \<times> world" where
  "postPresenceOffline w headerSecret body =
     (if \<not> requireSecret w headerSecret then (Status401, w)
      else (let uid = (case getProp body ''userId'' of Some (JStr s) \<Rightarrow> trim s | _ \<Rightarrow> [])
            in if uid = [] then (Status400, w)
               else (Status204, markOffline w uid)))"

text \<open>
  Every record is stored under its own \<open>userId\<close>: \<open>upsert\<close> is the only writer and uses
  the record's id as the key.
\<close>

definition recordKeyed :: "world \<Rightarrow> bool" where
  "recordKeyed w = (\<forall>uid r. store w uid = Some r \<longrightarrow> userId r = uid)"

text \<open>
  The two invariants of the running process: records sit under their own id, and the
  registry, being a \<open>Map\<close>, holds each connection at most once.
\<close>

definition wellFormed :: "world \<Rightarrow> bool" where
  "wellFormed w = (recordKeyed w \<and> distinct (map fst (subscriptions w)))"

text \<open>
  What a connection was sent between two states: the messages logged for it in \<open>after\<close>
  beyond those already logged in \<open>before\<close>. \<open>updatesTo\<close> keeps the
  \<open>friends-presence-update\<close> messages among them.
\<close>

definition deliveredTo :: "world \<Rightarrow> world \<Rightarrow> conn \<Rightarrow> outmsg list" where
  "deliveredTo before after ws =
     map snd (filter (\<lambda>p. fst p = ws) (drop (length (sent before)) (sent after)))"



text \<open>
  Messages the socket handlers have no branch for. \<open>unknownType\<close>: the \<open>type\<close> tag is none
  of the five the registry-keeping handler tests for. \<open>lacksRequired\<close>: the tag is known
  but the guard on the branch's required field fails: \<open>userId\<close> is missing or falsy on a
  heartbeat or offline message, \<open>userIds\<close> or \<open>friendIds\<close> is missing or not an array.
\<close>

definition isArray :: "json option \<Rightarrow> bool" where
  "isArray v = (case v of Some (JArr arr) \<Rightarrow> True | _ \<Rightarrow> False)"

definition unknownType :: "json \<Rightarrow> bool" where
  "unknownType msg =
     (getProp msg ''type'' \<noteq> Some (JStr ''heartbeat'')
      \<and> getProp msg ''type'' \<noteq> Some (JStr ''offline'')
      \<and> getProp msg ''type'' \<noteq> Some (JStr ''query-presence'')
      \<and> getProp msg ''type'' \<noteq> Some (JStr ''subscribe-friends'')
      \<and> getProp msg ''type'' \<noteq> Some (JStr ''unsubscribe-friends''))"

definition lacksRequired :: "json \<Rightarrow> bool" where
  "lacksRequired msg =
     ((getProp msg ''type'' = Some (JStr ''heartbeat'') \<and> \<not> isTruthy (getProp msg ''userId''))
      \<or> (getProp msg ''type'' = Some (JStr ''offline'') \<and> \<not> isTruthy (getProp msg ''userId''))
      \<or> (getProp msg ''type'' = Some (JStr ''query-presence'') \<and> \<not> isArray (getProp msg ''userIds''))
      \<or> (getProp msg ''type'' = Some (JStr ''subscribe-friends'')
          \<and> \<not> isArray (getProp msg ''friendIds'')))"

section \<open>Sample states\<close>

text \<open>
  A process just started: nothing stored, nobody subscribed, every socket open and
  accepting sends, a clock standing at 5000 ms, the default TTL of 60 s, no secret. The
  only string or array handed to \<open>toNumber\<close> below is the string \<open>abc\<close>, which is not a
  numeric literal.
\<close>

definition freshWorld :: world where
  "freshWorld =
     \<lparr>clock = (\<lambda>n. 5000), ticks = 0, store_ttlMs = 60000, store = Map.empty,
      subscriptions = [], connUserId = (\<lambda>c. None), readyOpen = (\<lambda>c. True),
      sendThrows = (\<lambda>c. False), sent = [], presenceSecret = None, toNumber = (\<lambda>v. NaN)\<rparr>"

text \<open>
  A state with two stored records, \<open>a\<close> already expired at the clock's 5000 ms and \<open>b\<close> live
  until 7000 ms, and three subscribers: connections 1 and 2 watch \<open>p\<close>, connection 3
  watches only \<open>q\<close>.
\<close>

definition sampleWorld :: world where
  "sampleWorld =
     freshWorld
       \<lparr>store :=
          [''a'' \<mapsto> \<lparr>userId = ''a'', status = JStr ''busy'', lastSeen = 3000,
                      expiresAt = Finite 5000, metadata = None\<rparr>,
           ''b'' \<mapsto> \<lparr>userId = ''b'', status = JStr ''away'', lastSeen = 4000,
                      expiresAt = Finite 7000, metadata = None\<rparr>],
        subscriptions := [(1, {''p''}), (2, {''p'', ''q''}), (3, {''q''})]\<rparr>"

text \<open>The same state with the socket of connection 1 torn down: sending to it throws.\<close>

definition staleWorld :: world where
  "staleWorld = sampleWorld\<lparr>sendThrows := (\<lambda>c. c = 1)\<rparr>"

text \<open>
  A lobby: \<open>p\<close> is present, last seen at 4000 ms; connection 1 has identified as \<open>p\<close> and,
  like connection 2, watches \<open>p\<close>; connection 3 is anonymous and watches \<open>q\<close>.
\<close>

definition lobbyWorld :: world where
  "lobbyWorld =
     freshWorld
       \<lparr>store := [''p'' \<mapsto> \<lparr>userId = ''p'', status = JStr ''online'', lastSeen = 4000,
                              expiresAt = Finite 64000, metadata = None\<rparr>],
        subscriptions := [(1, {''p''}), (2, {''p'', ''q''}), (3, {''q''})],
        connUserId := (\<lambda>c. if c = 1 then Some (JStr ''p'') else None)\<rparr>"

text \<open>
  The state a process just started is in after connection 1 has sent a heartbeat for the
  user \<open>n\<close> whose \<open>ttlMs\<close> is the given value.
\<close>

definition nanWorld :: "json \<Rightarrow> world" where
  "nanWorld ttl =
     snd (wsOnMessage freshWorld 1
            (Some (JObj [(''type'', JStr ''heartbeat''), (''userId'', JStr ''n''), (''ttlMs'', ttl)])))"

section \<open>The presence store\<close>

lemma markOffline_store: "store (markOffline w uid) = (store w)(uid := None)"
  by (simp add: markOffline_def)

text \<open>
  C8. \<open>markOffline\<close> is total and idempotent: it removes the record of the given user and
  nothing else, leaves a store without that record unchanged, and a second call changes
  nothing.
\<close>

theorem markOffline_idempotent:
  "store (markOffline w uid) uid = None
   \<and> (\<forall>v. v \<noteq> uid \<longrightarrow> store (markOffline w uid) v = store w v)
   \<and> (store w uid = None \<longrightarrow> markOffline w uid = w)
   \<and> markOffline (markOffline w uid) uid = markOffline w uid"
  by (auto simp: markOffline_def fun_upd_idem)

theorem markOffline_idempotent_witness:
  "store (markOffline sampleWorld ''a'') ''a'' = None
   \<and> store (markOffline sampleWorld ''a'') ''b'' = store sampleWorld ''b''
   \<and> store freshWorld ''a'' = None
   \<and> markOffline freshWorld ''a'' = freshWorld
   \<and> markOffline (markOffline sampleWorld ''a'') ''a'' = markOffline sampleWorld ''a''"
  using markOffline_idempotent [of sampleWorld "''a''"] markOffline_idempotent [of freshWorld "''a''"]
  by (simp add: freshWorld_def)

text \<open>
  C1. \<open>getOne\<close> is a read-through eviction. With \<open>now\<close> the reading \<open>isExpired\<close> takes:
  an absent id gives absent and changes nothing; a record with \<open>expiresAt \<le> now\<close> is
  deleted and absent is returned, and a second \<open>getOne\<close> on the same id gives absent again
  and changes nothing; any other record is returned as a snapshot whose derived fields
  are computed from the clock's next reading, and the store is left as it was; nothing
  that is returned as present has \<open>expiresAt \<le> now\<close>.
\<close>

theorem getOne_read_through:
  "(store w uid = None \<longrightarrow> getOne w uid = (None, w))
   \<and> (\<forall>record. store w uid = Some record
          \<and> jsLe (expiresAt record) (Finite (clock w (ticks w))) \<longrightarrow>
         fst (getOne w uid) = None
         \<and> store (snd (getOne w uid)) = (store w)(uid := None)
         \<and> getOne (snd (getOne w uid)) uid = (None, snd (getOne w uid)))
   \<and> (\<forall>record. store w uid = Some record
          \<and> \<not> jsLe (expiresAt record) (Finite (clock w (ticks w))) \<longrightarrow>
         (\<exists>snap. fst (getOne w uid) = Some snap
            \<and> userId snap = userId record \<and> status snap = status record
            \<and> lastSeen snap = lastSeen record \<and> expiresAt snap = expiresAt record
            \<and> metadata snap = metadata record
            \<and> ttlMs snap = jsMax (Finite 0)
                              (jsSub (expiresAt record) (Finite (clock w (Suc (ticks w)))))
            \<and> isOnline snap = jsLt (Finite 0) (ttlMs snap))
         \<and> store (snd (getOne w uid)) = store w)
   \<and> (\<forall>snap. fst (getOne w uid) = Some snap \<longrightarrow>
         (\<exists>record. store w uid = Some record \<and> expiresAt snap = expiresAt record
            \<and> \<not> jsLe (expiresAt record) (Finite (clock w (ticks w)))))
   \<and> (\<forall>record e. store w uid = Some record \<and> expiresAt record = Finite e \<longrightarrow>
         (e \<le> clock w (ticks w) \<longrightarrow> fst (getOne w uid) = None)
         \<and> (clock w (ticks w) < e \<longrightarrow>
              map_option ttlMs (fst (getOne w uid))
                = Some (Finite (max 0 (e - clock w (Suc (ticks w)))))
              \<and> map_option isOnline (fst (getOne w uid))
                = Some (0 < max 0 (e - clock w (Suc (ticks w))))))"
  by (auto simp: getOne_def isExpired_def toSnapshot_def dateNow_def Let_def
           split: option.splits if_splits)

theorem getOne_read_through_witness:
  "store sampleWorld ''z'' = None \<and> getOne sampleWorld ''z'' = (None, sampleWorld)
   \<and> jsLe (expiresAt (the (store sampleWorld ''a''))) (Finite (clock sampleWorld (ticks sampleWorld)))
   \<and> fst (getOne sampleWorld ''a'') = None
   \<and> store (snd (getOne sampleWorld ''a'')) ''a'' = None
   \<and> fst (getOne (snd (getOne sampleWorld ''a'')) ''a'') = None
   \<and> \<not> jsLe (expiresAt (the (store sampleWorld ''b''))) (Finite (clock sampleWorld (ticks sampleWorld)))
   \<and> map_option ttlMs (fst (getOne sampleWorld ''b'')) = Some (Finite 2000)
   \<and> map_option isOnline (fst (getOne sampleWorld ''b'')) = Some True"
  using getOne_read_through [of sampleWorld "''z''"] getOne_read_through [of sampleWorld "''a''"]
    getOne_read_through [of sampleWorld "''b''"]
  by (auto simp add: sampleWorld_def freshWorld_def)

lemma isOnline_js: "jsLt (Finite 0) (jsMax (Finite 0) (jsSub e (Finite n))) = jsLt (Finite n) e"
  by (cases e) auto

lemma upsert_world:
  "upsert w uid st ttlOverride md =
     (\<lparr>userId = uid, status = st, lastSeen = clock w (ticks w),
       expiresAt = jsAdd (Finite (clock w (ticks w)))
                     (jsMax (Finite 1000)
                        (case ttlOverride of Some t \<Rightarrow> t | None \<Rightarrow> Finite (store_ttlMs w))),
       metadata = md,
       isOnline = jsLt (Finite (clock w (Suc (ticks w))))
                    (jsAdd (Finite (clock w (ticks w)))
                       (jsMax (Finite 1000)
                          (case ttlOverride of Some t \<Rightarrow> t | None \<Rightarrow> Finite (store_ttlMs w)))),
       ttlMs = jsMax (Finite 0)
                 (jsSub (jsAdd (Finite (clock w (ticks w)))
                           (jsMax (Finite 1000)
                              (case ttlOverride of Some t \<Rightarrow> t | None \<Rightarrow> Finite (store_ttlMs w))))
                    (Finite (clock w (Suc (ticks w)))))\<rparr>,
      w\<lparr>ticks := Suc (Suc (ticks w)),
        store := (store w)(uid \<mapsto>
          \<lparr>userId = uid, status = st, lastSeen = clock w (ticks w),
           expiresAt = jsAdd (Finite (clock w (ticks w)))
                         (jsMax (Finite 1000)
                            (case ttlOverride of Some t \<Rightarrow> t | None \<Rightarrow> Finite (store_ttlMs w))),
           metadata = md\<rparr>)\<rparr>)"
  by (cases ttlOverride) (simp_all add: upsert_def toSnapshot_def dateNow_def Let_def isOnline_js)

lemma getOne_after_upsert:
  assumes "\<forall>n. clock w n = clock w (ticks w)"
  shows "map_option ttlMs (fst (getOne (snd (upsert w uid st (Some (Finite 10)) md)) uid))
           = Some (Finite 1000)"
proof -
  have c: "\<And>n. clock w n = clock w (ticks w)" using assms by blast
  show ?thesis
    by (simp add: upsert_world getOne_def isExpired_def toSnapshot_def dateNow_def Let_def
          c [of "Suc (Suc (ticks w))"] c [of "Suc (Suc (Suc (ticks w)))"])
qed

lemma upsert_floor:
  assumes "clock w (Suc (ticks w)) = clock w (ticks w)" and "ttlOverride \<noteq> Some NaN"
  shows "jsLe (Finite 1000) (ttlMs (fst (upsert w uid st ttlOverride md)))"
proof (cases ttlOverride)
  case None
  with assms show ?thesis by (simp add: upsert_world)
next
  case (Some t)
  with assms obtain n where "t = Finite n" by (cases t) auto
  with Some assms show ?thesis by (simp add: upsert_world)
qed

text \<open>
  C2. \<open>upsert\<close> stores, under the given id, a record built from its arguments alone:
  \<open>lastSeen\<close> is the clock reading \<open>now\<close>, \<open>expiresAt\<close> is \<open>now\<close> plus the effective TTL
  \<open>max 1000 (override, or the configured default when none is given)\<close>, computed as
  JavaScript does. Whatever was stored under the id before has no influence on the new
  record. The snapshot returned copies the record and derives \<open>ttlMs\<close> and \<open>isOnline\<close> from
  the clock's next reading. When the clock has not moved between the two readings
  \<open>ttlMs\<close> is at least 1000 for every numeric override and for none, and with an override
  of 10 it is exactly 1000, also in a \<open>getOne\<close> made at the same instant.
\<close>

theorem upsert_replaces:
  "store (snd (upsert w uid st ttlOverride md)) =
     (store w)(uid \<mapsto>
        \<lparr>userId = uid, status = st, lastSeen = clock w (ticks w),
         expiresAt = jsAdd (Finite (clock w (ticks w)))
                       (jsMax (Finite 1000)
                          (case ttlOverride of Some t \<Rightarrow> t | None \<Rightarrow> Finite (store_ttlMs w))),
         metadata = md\<rparr>)
   \<and> fst (upsert w uid st ttlOverride md) =
       \<lparr>userId = uid, status = st, lastSeen = clock w (ticks w),
        expiresAt = jsAdd (Finite (clock w (ticks w)))
                      (jsMax (Finite 1000)
                         (case ttlOverride of Some t \<Rightarrow> t | None \<Rightarrow> Finite (store_ttlMs w))),
        metadata = md,
        isOnline = jsLt (Finite (clock w (Suc (ticks w))))
                     (jsAdd (Finite (clock w (ticks w)))
                        (jsMax (Finite 1000)
                           (case ttlOverride of Some t \<Rightarrow> t | None \<Rightarrow> Finite (store_ttlMs w)))),
        ttlMs = jsMax (Finite 0)
                  (jsSub (jsAdd (Finite (clock w (ticks w)))
                            (jsMax (Finite 1000)
                               (case ttlOverride of Some t \<Rightarrow> t | None \<Rightarrow> Finite (store_ttlMs w))))
                     (Finite (clock w (Suc (ticks w)))))\<rparr>
   \<and> (\<forall>t. expiresAt (fst (upsert w uid st (Some (Finite t)) md))
             = Finite (clock w (ticks w) + max 1000 t)
          \<and> isOnline (fst (upsert w uid st (Some (Finite t)) md))
             = (clock w (Suc (ticks w)) < clock w (ticks w) + max 1000 t)
          \<and> ttlMs (fst (upsert w uid st (Some (Finite t)) md))
             = Finite (max 0 (clock w (ticks w) + max 1000 t - clock w (Suc (ticks w)))))
   \<and> expiresAt (fst (upsert w uid st None md))
        = Finite (clock w (ticks w) + max 1000 (store_ttlMs w))
   \<and> isOnline (fst (upsert w uid st None md))
        = (clock w (Suc (ticks w)) < clock w (ticks w) + max 1000 (store_ttlMs w))
   \<and> ttlMs (fst (upsert w uid st None md))
        = Finite (max 0 (clock w (ticks w) + max 1000 (store_ttlMs w) - clock w (Suc (ticks w))))
   \<and> (\<forall>prior. store (snd (upsert (w\<lparr>store := (store w)(uid \<mapsto> prior)\<rparr>) uid st ttlOverride md)) uid
               = store (snd (upsert w uid st ttlOverride md)) uid)
   \<and> (clock w (Suc (ticks w)) = clock w (ticks w) \<longrightarrow>
        (ttlOverride \<noteq> Some NaN \<longrightarrow>
           jsLe (Finite 1000) (ttlMs (fst (upsert w uid st ttlOverride md))))
        \<and> ttlMs (fst (upsert w uid st (Some (Finite 10)) md)) = Finite 1000)
   \<and> ((\<forall>n. clock w n = clock w (ticks w)) \<longrightarrow>
        map_option ttlMs (fst (getOne (snd (upsert w uid st (Some (Finite 10)) md)) uid))
          = Some (Finite 1000))"
  using getOne_after_upsert [of w uid st md] upsert_floor [of w ttlOverride uid st md]
  by (cases ttlOverride) (simp_all add: upsert_world)

theorem upsert_replaces_witness:
  "clock sampleWorld (Suc (ticks sampleWorld)) = clock sampleWorld (ticks sampleWorld)
   \<and> (\<forall>n. clock sampleWorld n = clock sampleWorld (ticks sampleWorld))
   \<and> Some (Finite 10) \<noteq> Some NaN
   \<and> ttlMs (fst (upsert sampleWorld ''b'' (JStr ''online'') (Some (Finite 10)) None)) = Finite 1000
   \<and> map_option ttlMs (fst (getOne (snd (upsert sampleWorld ''b'' (JStr ''online'')
                                           (Some (Finite 10)) None)) ''b'')) = Some (Finite 1000)
   \<and> store (snd (upsert sampleWorld ''b'' (JStr ''online'') (Some (Finite 10)) None)) ''b''
       = Some \<lparr>userId = ''b'', status = JStr ''online'', lastSeen = 5000,
                expiresAt = Finite 6000, metadata = None\<rparr>"
  using upsert_replaces [of sampleWorld "''b''" "JStr ''online''" "Some (Finite 10)" None]
  by (simp add: sampleWorld_def freshWorld_def)

subsection \<open>Reading many ids\<close>

lemma dedupe_fold:
  "distinct acc \<Longrightarrow>
     distinct (foldl (\<lambda>acc x. if x \<in> set acc then acc else acc @ [x]) acc ids)
     \<and> set (foldl (\<lambda>acc x. if x \<in> set acc then acc else acc @ [x]) acc ids) = set acc \<union> set ids
     \<and> length (foldl (\<lambda>acc x. if x \<in> set acc then acc else acc @ [x]) acc ids)
         \<le> length acc + length ids"
proof (induction ids arbitrary: acc)
  case Nil
  then show ?case by simp
next
  case (Cons x ids)
  show ?case
  proof (cases "x \<in> set acc")
    case True
    with Cons.IH [OF Cons.prems] show ?thesis by auto
  next
    case False
    with Cons.prems have "distinct (acc @ [x])" by simp
    from Cons.IH [OF this] False show ?thesis by auto
  qed
qed

lemma distinct_dedupe: "distinct (dedupe ids)"
  using dedupe_fold [of "[]" ids] by (simp add: dedupe_def)

lemma set_dedupe: "set (dedupe ids) = set ids"
  using dedupe_fold [of "[]" ids] by (simp add: dedupe_def)

lemma length_dedupe: "length (dedupe ids) \<le> length ids"
  using dedupe_fold [of "[]" ids] by (simp add: dedupe_def)

lemma getOne_world:
  "\<exists>n m. snd (getOne w uid) = w\<lparr>ticks := n, store := m\<rparr>
         \<and> (\<forall>v. v \<noteq> uid \<longrightarrow> m v = store w v)
         \<and> (\<forall>v r. m v = Some r \<longrightarrow> store w v = Some r)"
proof (cases "store w uid")
  case None
  then have "snd (getOne w uid) = w\<lparr>ticks := ticks w, store := store w\<rparr>"
    by (simp add: getOne_def)
  then show ?thesis by blast
next
  case (Some r)
  show ?thesis
  proof (cases "jsLe (expiresAt r) (Finite (clock w (ticks w)))")
    case True
    with Some have "snd (getOne w uid) = w\<lparr>ticks := Suc (ticks w), store := (store w)(uid := None)\<rparr>"
      by (simp add: getOne_def isExpired_def dateNow_def)
    moreover have "\<forall>v. v \<noteq> uid \<longrightarrow> ((store w)(uid := None)) v = store w v" by simp
    moreover have "\<forall>v r. ((store w)(uid := None)) v = Some r \<longrightarrow> store w v = Some r"
      by (simp split: if_splits)
    ultimately show ?thesis by blast
  next
    case False
    with Some have "snd (getOne w uid) = w\<lparr>ticks := Suc (Suc (ticks w)), store := store w\<rparr>"
      by (simp add: getOne_def isExpired_def toSnapshot_def dateNow_def Let_def)
    then show ?thesis by blast
  qed
qed

lemma getOne_clock: "clock (snd (getOne w uid)) = clock w"
proof -
  obtain n m where "snd (getOne w uid) = w\<lparr>ticks := n, store := m\<rparr>"
    using getOne_world [of w uid] by blast
  then show ?thesis by simp
qed

lemma getOne_store_other: "v \<noteq> uid \<Longrightarrow> store (snd (getOne w uid)) v = store w v"
proof -
  assume ne: "v \<noteq> uid"
  obtain n m where "snd (getOne w uid) = w\<lparr>ticks := n, store := m\<rparr>"
    and "\<forall>v. v \<noteq> uid \<longrightarrow> m v = store w v"
    using getOne_world [of w uid] by blast
  with ne show ?thesis by simp
qed

lemma getOne_store_sub: "store (snd (getOne w uid)) v = Some r \<Longrightarrow> store w v = Some r"
proof -
  assume a: "store (snd (getOne w uid)) v = Some r"
  obtain n m where "snd (getOne w uid) = w\<lparr>ticks := n, store := m\<rparr>"
    and "\<forall>v r. m v = Some r \<longrightarrow> store w v = Some r"
    using getOne_world [of w uid] by blast
  with a show ?thesis by simp
qed

lemma getOne_cases:
  "getOne w uid =
     (case store w uid of
        None \<Rightarrow> (None, w)
      | Some r \<Rightarrow>
          if jsLe (expiresAt r) (Finite (clock w (ticks w)))
          then (None, w\<lparr>ticks := Suc (ticks w), store := (store w)(uid := None)\<rparr>)
          else (Some (fst (toSnapshot (w\<lparr>ticks := Suc (ticks w)\<rparr>) r)),
                w\<lparr>ticks := Suc (Suc (ticks w))\<rparr>))"
  by (simp add: getOne_def isExpired_def toSnapshot_def dateNow_def Let_def split: option.splits)

lemma getOne_userId:
  "fst (getOne w uid) = Some snap \<Longrightarrow> \<exists>r. store w uid = Some r \<and> userId snap = userId r"
  by (cases "store w uid") (auto simp: getOne_cases toSnapshot_def dateNow_def Let_def split: if_splits)

lemma getOne_instant:
  assumes "\<forall>n. clock w n = t"
  shows "fst (getOne w uid) =
           (case store w uid of
              None \<Rightarrow> None
            | Some r \<Rightarrow> if jsLe (expiresAt r) (Finite t) then None
                        else Some (fst (toSnapshot w r)))"
proof -
  have c: "\<And>n. clock w n = t" using assms by blast
  show ?thesis
    by (cases "store w uid") (simp_all add: getOne_cases toSnapshot_def dateNow_def Let_def c)
qed

lemma getEach_Cons:
  "getEach w (uid # rest) =
     (fst (getOne w uid) # fst (getEach (snd (getOne w uid)) rest),
      snd (getEach (snd (getOne w uid)) rest))"
  by (simp add: case_prod_beta)

lemma length_getEach: "length (fst (getEach w uids)) = length uids"
  by (induction uids arbitrary: w) (simp_all add: getEach_Cons del: getEach.simps(2))

lemma getMany_proj:
  "getMany w ids =
     (List.map_filter (\<lambda>r. r) (fst (getEach w (dedupe ids))), snd (getEach w (dedupe ids)))"
  by (simp add: getMany_def case_prod_beta)

lemma length_map_filter_le: "length (List.map_filter f xs) \<le> length xs"
  by (simp add: map_filter_def)

lemma length_getMany: "length (fst (getMany w ids)) \<le> length ids"
proof -
  have "length (fst (getMany w ids)) \<le> length (fst (getEach w (dedupe ids)))"
    by (simp add: getMany_proj length_map_filter_le)
  also have "\<dots> = length (dedupe ids)" by (rule length_getEach)
  also have "\<dots> \<le> length ids" by (rule length_dedupe)
  finally show ?thesis .
qed

lemma recordKeyed_getOne: "recordKeyed w \<Longrightarrow> recordKeyed (snd (getOne w uid))"
  unfolding recordKeyed_def using getOne_store_sub by blast

lemma getEach_userIds:
  "recordKeyed w \<Longrightarrow> distinct uids \<Longrightarrow>
     distinct (map userId (List.map_filter (\<lambda>r. r) (fst (getEach w uids))))
     \<and> set (map userId (List.map_filter (\<lambda>r. r) (fst (getEach w uids)))) \<subseteq> set uids"
proof (induction uids arbitrary: w)
  case Nil
  then show ?case by simp
next
  case (Cons uid rest)
  let ?w1 = "snd (getOne w uid)"
  have ih: "distinct (map userId (List.map_filter (\<lambda>r. r) (fst (getEach ?w1 rest))))
            \<and> set (map userId (List.map_filter (\<lambda>r. r) (fst (getEach ?w1 rest)))) \<subseteq> set rest"
    using Cons.IH [of ?w1] Cons.prems recordKeyed_getOne by simp
  show ?case
  proof (cases "fst (getOne w uid)")
    case None
    with ih show ?thesis
      by (auto simp add: getEach_Cons simp del: getEach.simps(2))
  next
    case (Some snap)
    then have "userId snap = uid"
      using getOne_userId [of w uid snap] Cons.prems(1) by (auto simp: recordKeyed_def)
    with Some ih Cons.prems(2) show ?thesis
      by (auto simp add: getEach_Cons simp del: getEach.simps(2))
  qed
qed

lemma getEach_instant:
  "\<forall>n. clock w n = t \<Longrightarrow> clock w' = clock w \<Longrightarrow> \<forall>u \<in> set uids. store w' u = store w u \<Longrightarrow>
     distinct uids \<Longrightarrow>
     fst (getEach w' uids) = map (\<lambda>u. fst (getOne w u)) uids"
proof (induction uids arbitrary: w')
  case Nil
  then show ?case by simp
next
  case (Cons uid rest)
  have c': "\<forall>n. clock w' n = t" using Cons.prems(1,2) by simp
  have t: "\<And>r. fst (toSnapshot w' r) = fst (toSnapshot w r)"
    using Cons.prems(1) c' by (simp add: toSnapshot_def dateNow_def Let_def)
  have h: "fst (getOne w' uid) = fst (getOne w uid)"
    using Cons.prems(3)
    by (simp add: getOne_instant [OF c'] getOne_instant [OF Cons.prems(1)] t split: option.splits)
  have "\<forall>u \<in> set rest. store (snd (getOne w' uid)) u = store w u"
  proof
    fix u assume u: "u \<in> set rest"
    with Cons.prems(4) have "u \<noteq> uid" by auto
    then have "store (snd (getOne w' uid)) u = store w' u" by (rule getOne_store_other)
    with u Cons.prems(3) show "store (snd (getOne w' uid)) u = store w u" by simp
  qed
  then have "fst (getEach (snd (getOne w' uid)) rest) = map (\<lambda>u. fst (getOne w u)) rest"
    using Cons.IH [of "snd (getOne w' uid)"] Cons.prems(1,2,4) by (simp add: getOne_clock)
  with h show ?case by (simp add: getEach_Cons del: getEach.simps(2))
qed

lemma map_filter_map: "List.map_filter (\<lambda>r. r) (map f xs) = List.map_filter f xs"
  by (induction xs) (simp_all add: split: option.splits)

lemma getMany_instant:
  assumes "\<forall>n. clock w n = t"
  shows "fst (getMany w ids) = List.map_filter (\<lambda>u. fst (getOne w u)) (dedupe ids)"
proof -
  have "fst (getEach w (dedupe ids)) = map (\<lambda>u. fst (getOne w u)) (dedupe ids)"
    using getEach_instant [OF assms, of w "dedupe ids"] distinct_dedupe by simp
  then show ?thesis by (simp add: getMany_proj map_filter_map)
qed

lemma filter_key_le1: "distinct (map f xs) \<Longrightarrow> length (filter (\<lambda>x. f x = a) xs) \<le> Suc 0"
proof (induction xs)
  case Nil
  then show ?case by simp
next
  case (Cons x xs)
  show ?case
  proof (cases "f x = a")
    case True
    from Cons.prems have "f x \<notin> f ` set xs" by simp
    with True have "\<forall>y \<in> set xs. f y \<noteq> a" by blast
    then have "filter (\<lambda>x. f x = a) xs = []"
      by (simp add: filter_empty_conv)
    with True show ?thesis by simp
  next
    case False
    with Cons show ?thesis by simp
  qed
qed

lemma getMany_userIds:
  assumes "recordKeyed w"
  shows "distinct (map userId (fst (getMany w ids)))"
    and "set (map userId (fst (getMany w ids))) \<subseteq> set ids"
  using getEach_userIds [OF assms distinct_dedupe, of ids]
  by (simp_all add: getMany_proj set_dedupe)

text \<open>
  C9. \<open>getMany\<close> de-duplicates its input, applies \<open>getOne\<close> to each distinct id and drops
  the absent results. The result is never longer than the input, nor than the number of
  distinct ids in it; the ids queried are the distinct ids of the input; in a store whose records sit under their own id the
  result holds at most one entry per id, all for ids of the input, so
  \<open>getMany [a, a, b]\<close> has at most one entry for \<open>a\<close> and one for \<open>b\<close>; and at a single
  instant the result is exactly what \<open>getOne\<close> gives, on the store as it was, for each
  distinct id in order of first occurrence, absent and expired ids left out.
\<close>

theorem getMany_dedupes:
  "length (fst (getMany w ids)) \<le> length ids
   \<and> length (fst (getMany w ids)) \<le> card (set ids)
   \<and> distinct (dedupe ids) \<and> set (dedupe ids) = set ids
   \<and> (recordKeyed w \<longrightarrow>
        distinct (map userId (fst (getMany w ids)))
        \<and> set (map userId (fst (getMany w ids))) \<subseteq> set ids
        \<and> length (filter (\<lambda>snap. userId snap = a) (fst (getMany w [a, a, b]))) \<le> 1
        \<and> length (filter (\<lambda>snap. userId snap = b) (fst (getMany w [a, a, b]))) \<le> 1)
   \<and> ((\<forall>n. clock w n = t) \<longrightarrow>
        fst (getMany w ids) = List.map_filter (\<lambda>uid. fst (getOne w uid)) (dedupe ids))"
proof (intro conjI impI)
  show "length (fst (getMany w ids)) \<le> length ids" by (rule length_getMany)
  have "length (fst (getMany w ids)) \<le> length (dedupe ids)"
    using length_map_filter_le [of "\<lambda>r. r" "fst (getEach w (dedupe ids))"]
    by (simp add: getMany_proj length_getEach)
  also have "\<dots> = card (set ids)"
    using distinct_card [OF distinct_dedupe, of ids] by (simp add: set_dedupe)
  finally show "length (fst (getMany w ids)) \<le> card (set ids)" .
  show "distinct (dedupe ids)" by (rule distinct_dedupe)
  show "set (dedupe ids) = set ids" by (rule set_dedupe)
next
  assume k: "recordKeyed w"
  show "distinct (map userId (fst (getMany w ids)))" by (rule getMany_userIds(1) [OF k])
  show "set (map userId (fst (getMany w ids))) \<subseteq> set ids" by (rule getMany_userIds(2) [OF k])
  have d: "distinct (map userId (fst (getMany w [a, a, b])))" by (rule getMany_userIds(1) [OF k])
  show "length (filter (\<lambda>snap. userId snap = a) (fst (getMany w [a, a, b]))) \<le> 1"
    using filter_key_le1 [OF d] by simp
  show "length (filter (\<lambda>snap. userId snap = b) (fst (getMany w [a, a, b]))) \<le> 1"
    using filter_key_le1 [OF d] by simp
next
  assume "\<forall>n. clock w n = t"
  then show "fst (getMany w ids) = List.map_filter (\<lambda>uid. fst (getOne w uid)) (dedupe ids)"
    by (rule getMany_instant)
qed

lemma recordKeyed_sampleWorld: "recordKeyed sampleWorld"
  by (simp add: recordKeyed_def sampleWorld_def freshWorld_def)

lemma clock_sampleWorld: "\<forall>n. clock sampleWorld n = 5000"
  by (simp add: sampleWorld_def freshWorld_def)

theorem getMany_dedupes_witness:
  "recordKeyed sampleWorld \<and> (\<forall>n. clock sampleWorld n = 5000)
   \<and> map userId (fst (getMany sampleWorld [''b'', ''b'', ''a'', ''z''])) = [''b'']
   \<and> length (filter (\<lambda>snap. userId snap = ''b'') (fst (getMany sampleWorld [''b'', ''b'', ''a'']))) \<le> 1"
  using getMany_dedupes [of sampleWorld "[''b'', ''b'', ''a'', ''z'']" "''b''" "''a''" 5000]
    recordKeyed_sampleWorld clock_sampleWorld
  by (simp add: dedupe_def getOne_cases toSnapshot_def dateNow_def
        sampleWorld_def freshWorld_def)

subsection \<open>Snapshots at a single instant\<close>

lemma getEach_world: "\<exists>n m. snd (getEach w uids) = w\<lparr>ticks := n, store := m\<rparr>"
proof (induction uids arbitrary: w)
  case Nil
  have "snd (getEach w []) = w\<lparr>ticks := ticks w, store := store w\<rparr>" by simp
  then show ?case by blast
next
  case (Cons uid rest)
  obtain n1 m1 where w1: "snd (getOne w uid) = w\<lparr>ticks := n1, store := m1\<rparr>"
    using getOne_world [of w uid] by blast
  obtain n m where "snd (getEach (snd (getOne w uid)) rest) = (snd (getOne w uid))\<lparr>ticks := n, store := m\<rparr>"
    using Cons.IH [of "snd (getOne w uid)"] by blast
  with w1 have "snd (getEach w (uid # rest)) = w\<lparr>ticks := n, store := m\<rparr>"
    by (simp add: getEach_Cons del: getEach.simps(2))
  then show ?case by blast
qed

lemma getMany_world: "\<exists>n m. snd (getMany w ids) = w\<lparr>ticks := n, store := m\<rparr>"
  using getEach_world [of w "dedupe ids"] by (simp add: getMany_proj)

lemma getMany_frame:
  "clock (snd (getMany w ids)) = clock w"
  "store_ttlMs (snd (getMany w ids)) = store_ttlMs w"
  "subscriptions (snd (getMany w ids)) = subscriptions w"
  "connUserId (snd (getMany w ids)) = connUserId w"
  "readyOpen (snd (getMany w ids)) = readyOpen w"
  "sendThrows (snd (getMany w ids)) = sendThrows w"
  "sent (snd (getMany w ids)) = sent w"
proof -
  obtain n m where "snd (getMany w ids) = w\<lparr>ticks := n, store := m\<rparr>"
    using getMany_world by blast
  then show "clock (snd (getMany w ids)) = clock w"
    "store_ttlMs (snd (getMany w ids)) = store_ttlMs w"
    "subscriptions (snd (getMany w ids)) = subscriptions w"
    "connUserId (snd (getMany w ids)) = connUserId w"
    "readyOpen (snd (getMany w ids)) = readyOpen w"
    "sendThrows (snd (getMany w ids)) = sendThrows w"
    "sent (snd (getMany w ids)) = sent w"
    by simp_all
qed

text \<open>
  At a single instant a snapshot that is returned is online with a positive \<open>ttlMs\<close> as
  long as the expiry of its record is a number: an expired record is evicted before the
  snapshot is built.
\<close>

lemma getOne_instant_online:
  assumes "\<forall>n. clock w n = t" and "fst (getOne w uid) = Some snap" and "expiresAt snap \<noteq> NaN"
  shows "isOnline snap \<and> jsLt (Finite 0) (ttlMs snap)"
proof -
  have c: "\<And>n. clock w n = t" using assms(1) by blast
  obtain r where r: "store w uid = Some r"
    using assms(2) by (cases "store w uid") (simp_all add: getOne_cases)
  from assms(2) r have e: "expiresAt r = expiresAt snap"
    by (auto simp: getOne_cases toSnapshot_def dateNow_def Let_def split: if_splits)
  with assms(3) have "expiresAt r \<noteq> NaN" by simp
  then obtain x where x: "expiresAt r = Finite x" by (cases "expiresAt r") simp_all
  from assms(2) r x show ?thesis
    by (auto simp: getOne_cases toSnapshot_def dateNow_def Let_def c split: if_splits)
qed

lemma getMany_instant_online:
  assumes "\<forall>n. clock w n = t" and "snap \<in> set (fst (getMany w ids))" and "expiresAt snap \<noteq> NaN"
  shows "isOnline snap \<and> jsLt (Finite 0) (ttlMs snap)
         \<and> entryStatus (presenceEntry snap) = status snap"
proof -
  from assms have "snap \<in> set (List.map_filter (\<lambda>uid. fst (getOne w uid)) (dedupe ids))"
    by (simp add: getMany_instant)
  then obtain uid where "fst (getOne w uid) = Some snap"
    by (auto simp: map_filter_def)
  with assms(1) have "isOnline snap \<and> jsLt (Finite 0) (ttlMs snap)"
    using assms(3) by (rule getOne_instant_online)
  then show ?thesis by (simp add: presenceEntry_def)
qed

text \<open>
  A record whose expiry is \<open>NaN\<close> is never evicted, since \<open>NaN <= now\<close> is false, and every
  snapshot of it is not online, since \<open>NaN > 0\<close> is false as well.
\<close>

lemma getOne_NaN:
  assumes "store w uid = Some r" and "expiresAt r = NaN"
  shows "getOne w uid =
           (Some \<lparr>userId = userId r, status = status r, lastSeen = lastSeen r, expiresAt = NaN,
                   metadata = metadata r, isOnline = False, ttlMs = NaN\<rparr>,
            w\<lparr>ticks := Suc (Suc (ticks w))\<rparr>)"
  using assms by (simp add: getOne_cases toSnapshot_def dateNow_def Let_def)

lemma nanWorld_eq:
  assumes "ttlArg (freshWorld\<lparr>connUserId := (connUserId freshWorld)(1 := Some (JStr ''n''))\<rparr>)
             (JObj [(''type'', JStr ''heartbeat''), (''userId'', JStr ''n''), (''ttlMs'', ttl)]) = NaN"
  shows "nanWorld ttl =
           freshWorld
             \<lparr>ticks := 2,
              store := [''n'' \<mapsto> \<lparr>userId = ''n'', status = JStr ''online'', lastSeen = 5000,
                                     expiresAt = NaN, metadata = Some (JObj [])\<rparr>],
              connUserId := (connUserId freshWorld)(1 := Some (JStr ''n'')),
              sent := [(1, HeartbeatAck ''n'')]\<rparr>"
proof -
  have "wsDispatch freshWorld 1
          (JObj [(''type'', JStr ''heartbeat''), (''userId'', JStr ''n''), (''ttlMs'', ttl)])
        = wsHeartbeat freshWorld 1
            (JObj [(''type'', JStr ''heartbeat''), (''userId'', JStr ''n''), (''ttlMs'', ttl)])
            (JStr ''n'')"
    by (simp add: wsDispatch_def isTruthy_def)
  moreover have "wsHeartbeat freshWorld 1
            (JObj [(''type'', JStr ''heartbeat''), (''userId'', JStr ''n''), (''ttlMs'', ttl)])
            (JStr ''n'')
        = Inr (freshWorld
             \<lparr>ticks := 2,
              store := [''n'' \<mapsto> \<lparr>userId = ''n'', status = JStr ''online'', lastSeen = 5000,
                                     expiresAt = NaN, metadata = Some (JObj [])\<rparr>],
              connUserId := (connUserId freshWorld)(1 := Some (JStr ''n'')),
              sent := [(1, HeartbeatAck ''n'')]\<rparr>)"
    using assms
    by (simp add: wsHeartbeat_def Let_def upsert_world wsSend_def orElse_def
          notifySubscribers_def freshWorld_def numeral_2_eq_2)
  ultimately show ?thesis
    by (simp add: nanWorld_def wsOnMessage_def)
qed

lemma nanWorld_object:
  "nanWorld (JObj []) =
     freshWorld
       \<lparr>ticks := 2,
        store := [''n'' \<mapsto> \<lparr>userId = ''n'', status = JStr ''online'', lastSeen = 5000,
                               expiresAt = NaN, metadata = Some (JObj [])\<rparr>],
        connUserId := (connUserId freshWorld)(1 := Some (JStr ''n'')),
        sent := [(1, HeartbeatAck ''n'')]\<rparr>"
  by (rule nanWorld_eq) (simp add: ttlArg_def orElse_def)

lemma nanWorld_string:
  "nanWorld (JStr ''abc'') = nanWorld (JObj [])"
  unfolding nanWorld_object
  by (rule nanWorld_eq) (simp add: ttlArg_def orElse_def freshWorld_def)

lemma getMany_nanWorld:
  "getMany (nanWorld (JObj [])\<lparr>subscriptions := subs\<rparr>) [''n''] =
     ([\<lparr>userId = ''n'', status = JStr ''online'', lastSeen = 5000, expiresAt = NaN,
        metadata = Some (JObj []), isOnline = False, ttlMs = NaN\<rparr>],
      nanWorld (JObj [])\<lparr>subscriptions := subs, ticks := 4\<rparr>)"
  by (simp add: getMany_def dedupe_def getOne_cases toSnapshot_def dateNow_def Let_def
        List.map_filter_simps nanWorld_object freshWorld_def eval_nat_numeral)

text \<open>
  C10. The socket heartbeat hands \<open>msg.ttlMs || 60000\<close> to \<open>upsert\<close> unchecked. Sent
  \<open>{"type": "heartbeat", "userId": "n", "ttlMs": {}}\<close> (or \<open>"ttlMs": "abc"\<close>) by connection
  1, a process just started stores for \<open>n\<close> a record whose \<open>expiresAt\<close> is \<open>NaN\<close>. With
  the clock standing still, \<open>getOne\<close> and \<open>getMany\<close> return that record as a snapshot with
  \<open>isOnline\<close> false and \<open>ttlMs\<close> \<open>NaN\<close> and leave it in the store, and the replies to
  \<open>query-presence\<close> and \<open>subscribe-friends\<close> from connection 2 report \<open>n\<close> with the status
  \<open>offline\<close> while \<open>online\<close> is stored: the \<open>offline\<close> branch of the reply mapping is taken.
\<close>

theorem nan_expiry_snapshot_offline:
  "nanWorld (JStr ''abc'') = nanWorld (JObj [])
   \<and> clock (nanWorld (JObj [])) = (\<lambda>n. 5000)
   \<and> store (nanWorld (JObj [])) ''n'' =
        Some \<lparr>userId = ''n'', status = JStr ''online'', lastSeen = 5000, expiresAt = NaN,
               metadata = Some (JObj [])\<rparr>
   \<and> fst (getOne (nanWorld (JObj [])) ''n'') =
        Some \<lparr>userId = ''n'', status = JStr ''online'', lastSeen = 5000, expiresAt = NaN,
               metadata = Some (JObj []), isOnline = False, ttlMs = NaN\<rparr>
   \<and> store (snd (getOne (nanWorld (JObj [])) ''n'')) ''n'' = store (nanWorld (JObj [])) ''n''
   \<and> fst (getMany (nanWorld (JObj [])) [''n'']) =
        [\<lparr>userId = ''n'', status = JStr ''online'', lastSeen = 5000, expiresAt = NaN,
          metadata = Some (JObj []), isOnline = False, ttlMs = NaN\<rparr>]
   \<and> fst (wsOnMessage (nanWorld (JObj [])) 2
             (Some (JObj [(''type'', JStr ''query-presence''), (''userIds'', JArr [JStr ''n''])])))
       = Returned
   \<and> deliveredTo (nanWorld (JObj []))
        (snd (wsOnMessage (nanWorld (JObj [])) 2
                (Some (JObj [(''type'', JStr ''query-presence''), (''userIds'', JArr [JStr ''n''])]))))
        2
       = [PresenceResponse None
            [\<lparr>entryUserId = ''n'', entryStatus = JStr ''offline'', entryLastSeen = 5000,
              entryMetadata = JObj []\<rparr>]]
   \<and> fst (wsOnMessage (nanWorld (JObj [])) 2
             (Some (JObj [(''type'', JStr ''subscribe-friends''), (''friendIds'', JArr [JStr ''n''])])))
       = Returned
   \<and> deliveredTo (nanWorld (JObj []))
        (snd (wsOnMessage (nanWorld (JObj [])) 2
                (Some (JObj [(''type'', JStr ''subscribe-friends''), (''friendIds'', JArr [JStr ''n''])]))))
        2
       = [FriendsPresenceUpdate
            [\<lparr>entryUserId = ''n'', entryStatus = JStr ''offline'', entryLastSeen = 5000,
              entryMetadata = JObj []\<rparr>]]"
proof -
  have q: "wsOnMessage (nanWorld (JObj [])) 2
             (Some (JObj [(''type'', JStr ''query-presence''), (''userIds'', JArr [JStr ''n''])]))
           = (Returned,
              nanWorld (JObj [])
                \<lparr>ticks := 4,
                 sent := sent (nanWorld (JObj [])) @
                   [(2, PresenceResponse None
                          [\<lparr>entryUserId = ''n'', entryStatus = JStr ''offline'',
                            entryLastSeen = 5000, entryMetadata = JObj []\<rparr>])]\<rparr>)"
    using getMany_nanWorld [of "subscriptions (nanWorld (JObj []))"]
    by (simp add: wsOnMessage_def wsDispatch_def wsQueryPresence_def wsSend_def presenceEntry_def
          nanWorld_object freshWorld_def)
  have f: "wsOnMessage (nanWorld (JObj [])) 2
             (Some (JObj [(''type'', JStr ''subscribe-friends''), (''friendIds'', JArr [JStr ''n''])]))
           = (Returned,
              nanWorld (JObj [])
                \<lparr>subscriptions := [(2, {''n''})], ticks := 4,
                 sent := sent (nanWorld (JObj [])) @
                   [(2, FriendsPresenceUpdate
                          [\<lparr>entryUserId = ''n'', entryStatus = JStr ''offline'',
                            entryLastSeen = 5000, entryMetadata = JObj []\<rparr>])]\<rparr>)"
    using getMany_nanWorld [of "[(2, {''n''})]"]
    by (simp add: wsOnMessage_def wsDispatch_def wsSubscribeFriends_def wsSend_def presenceEntry_def
          Let_def nanWorld_object freshWorld_def)
  have g: "getOne (nanWorld (JObj [])) ''n'' =
             (Some \<lparr>userId = ''n'', status = JStr ''online'', lastSeen = 5000, expiresAt = NaN,
                     metadata = Some (JObj []), isOnline = False, ttlMs = NaN\<rparr>,
              nanWorld (JObj [])\<lparr>ticks := 4\<rparr>)"
    by (simp add: getOne_cases toSnapshot_def dateNow_def Let_def nanWorld_object freshWorld_def
          eval_nat_numeral)
  have m: "fst (getMany (nanWorld (JObj [])) [''n'']) =
        [\<lparr>userId = ''n'', status = JStr ''online'', lastSeen = 5000, expiresAt = NaN,
          metadata = Some (JObj []), isOnline = False, ttlMs = NaN\<rparr>]"
    using getMany_nanWorld [of "subscriptions (nanWorld (JObj []))"] by simp
  show ?thesis
    unfolding q f g m
    by (simp add: nanWorld_string deliveredTo_def)
       (simp add: nanWorld_object freshWorld_def)
qed

section \<open>Broadcasts\<close>

lemma filter_delete:
  "filter (\<lambda>p. fst p \<notin> S) (AList.delete k al) = filter (\<lambda>p. fst p \<noteq> k \<and> fst p \<notin> S) al"
  by (induction al) auto

lemma notifyLoop_result:
  "notifyLoop es f u w =
     w\<lparr>sent := sent w @ map (\<lambda>p. (fst p, u))
                  (filter (\<lambda>p. f \<in> snd p \<and> readyOpen w (fst p) \<and> \<not> sendThrows w (fst p)) es),
       subscriptions :=
         filter (\<lambda>p. fst p \<notin> fst ` set (filter (\<lambda>p. f \<in> snd p \<and> readyOpen w (fst p)
                                                      \<and> sendThrows w (fst p)) es))
           (subscriptions w)\<rparr>"
proof (induction es arbitrary: w)
  case Nil
  then show ?case by simp
next
  case (Cons e es)
  obtain ws friendIds where e: "e = (ws, friendIds)" by (cases e)
  show ?case
  proof (cases "f \<in> friendIds \<and> readyOpen w ws")
    case False
    then show ?thesis unfolding e by (auto simp add: Cons.IH)
  next
    case True
    show ?thesis
    proof (cases "sendThrows w ws")
      case False
      with True show ?thesis unfolding e by (simp add: Cons.IH wsSend_def)
    next
      case st: True
      have "\<And>S. filter (\<lambda>p. fst p \<notin> S) (AList.delete ws (subscriptions w))
                 = filter (\<lambda>p. fst p \<noteq> ws \<and> fst p \<notin> S) (subscriptions w)"
        by (rule filter_delete)
      with True st show ?thesis unfolding e
        by (simp add: Cons.IH wsSend_def cong: conj_cong)
    qed
  qed
qed

lemma notifySubscribers_result:
  "notifySubscribers w f st ls =
     w\<lparr>sent := sent w @ map (\<lambda>p. (fst p, presenceUpdate f st ls))
                  (filter (\<lambda>p. f \<in> snd p \<and> readyOpen w (fst p) \<and> \<not> sendThrows w (fst p))
                     (subscriptions w)),
       subscriptions :=
         filter (\<lambda>p. fst p \<notin> fst ` set (filter (\<lambda>p. f \<in> snd p \<and> readyOpen w (fst p)
                                                      \<and> sendThrows w (fst p)) (subscriptions w)))
           (subscriptions w)\<rparr>"
  by (simp add: notifySubscribers_def notifyLoop_result)

lemma filter_key_unique:
  "distinct (map fst al) \<Longrightarrow> (k, v) \<in> set al \<Longrightarrow> filter (\<lambda>p. fst p = k) al = [(k, v)]"
proof (induction al)
  case Nil
  then show ?case by simp
next
  case (Cons p al)
  show ?case
  proof (cases "p = (k, v)")
    case True
    with Cons.prems have "k \<notin> fst ` set al" by simp
    then have "\<forall>q \<in> set al. fst q \<noteq> k" by blast
    then have "filter (\<lambda>p. fst p = k) al = []" by (simp add: filter_empty_conv)
    with True show ?thesis by simp
  next
    case False
    with Cons.prems have in_al: "(k, v) \<in> set al" by simp
    with Cons.prems have "fst p \<noteq> k" by (metis distinct.simps(2) fst_conv image_eqI list.simps(9) set_map)
    with Cons.IH Cons.prems in_al show ?thesis by simp
  qed
qed

lemma filter_key_absent: "k \<notin> fst ` set al \<Longrightarrow> filter (\<lambda>p. fst p = k) al = []"
  by (auto simp: filter_empty_conv)

lemma filter_failing_keys:
  assumes "distinct (map fst al)"
  shows "filter (\<lambda>p. fst p \<notin> fst ` set (filter F al)) al = filter (\<lambda>p. \<not> F p) al"
proof (rule filter_cong [OF refl])
  fix p assume p: "p \<in> set al"
  show "(fst p \<notin> fst ` set (filter F al)) = (\<not> F p)"
  proof
    assume "fst p \<notin> fst ` set (filter F al)"
    with p show "\<not> F p" by force
  next
    assume nf: "\<not> F p"
    show "fst p \<notin> fst ` set (filter F al)"
    proof
      assume "fst p \<in> fst ` set (filter F al)"
      then obtain q where q: "q \<in> set al" "F q" "fst q = fst p" by auto
      with assms p have "q = p" by (metis eq_key_imp_eq_value prod.collapse)
      with q nf show False by simp
    qed
  qed
qed

lemma notifySubscribers_subscriptions:
  "distinct (map fst (subscriptions w)) \<Longrightarrow>
     subscriptions (notifySubscribers w f st ls) =
       filter (\<lambda>p. \<not> (f \<in> snd p \<and> readyOpen w (fst p) \<and> sendThrows w (fst p))) (subscriptions w)"
proof -
  assume d: "distinct (map fst (subscriptions w))"
  have "subscriptions (notifySubscribers w f st ls) =
          filter (\<lambda>p. fst p \<notin> fst ` set (filter (\<lambda>p. f \<in> snd p \<and> readyOpen w (fst p)
                                                      \<and> sendThrows w (fst p)) (subscriptions w)))
           (subscriptions w)"
    unfolding notifySubscribers_result by simp
  also have "\<dots> = filter (\<lambda>p. \<not> (f \<in> snd p \<and> readyOpen w (fst p) \<and> sendThrows w (fst p)))
                      (subscriptions w)"
    by (rule filter_failing_keys [OF d])
  finally show ?thesis .
qed

lemma deliveredTo_notifySubscribers:
  "deliveredTo w (notifySubscribers w f st ls) ws =
     map (\<lambda>p. presenceUpdate f st ls)
       (filter (\<lambda>p. f \<in> snd p \<and> readyOpen w (fst p) \<and> \<not> sendThrows w (fst p))
          (filter (\<lambda>p. fst p = ws) (subscriptions w)))"
  by (simp add: deliveredTo_def notifySubscribers_result filter_map comp_def conj_commute)

lemma map_of_filter_keep:
  "distinct (map fst al) \<Longrightarrow> (k, v) \<in> set al \<Longrightarrow> P (k, v) \<Longrightarrow> map_of (filter P al) k = Some v"
  by (simp add: distinct_map_filter)

lemma map_of_filter_drop:
  assumes "distinct (map fst al)" and "(k, v) \<in> set al" and "\<not> P (k, v)"
  shows "map_of (filter P al) k = None"
proof (rule ccontr)
  assume "map_of (filter P al) k \<noteq> None"
  then obtain v' where "map_of (filter P al) k = Some v'" by blast
  then have "(k, v') \<in> set (filter P al)" by (rule map_of_SomeD)
  then have "(k, v') \<in> set al" and p: "P (k, v')" by simp_all
  with assms(1,2) have "v' = v" by (metis eq_key_imp_eq_value)
  with p assms(3) show False by simp
qed

lemma map_of_filter_same:
  assumes "\<forall>v. (k, v) \<in> set al \<longrightarrow> P (k, v)"
  shows "map_of (filter P al) k = map_of al k"
  using assms by (induction al) auto

lemma notifySubscribers_frame:
  "store (notifySubscribers w f st ls) = store w"
  "ticks (notifySubscribers w f st ls) = ticks w"
  "clock (notifySubscribers w f st ls) = clock w"
  "connUserId (notifySubscribers w f st ls) = connUserId w"
  "readyOpen (notifySubscribers w f st ls) = readyOpen w"
  "sendThrows (notifySubscribers w f st ls) = sendThrows w"
  by (simp_all add: notifySubscribers_result)

text \<open>
  C7. A broadcast is best effort. With the registry keyed by connection (each connection
  once), \<open>notifySubscribers\<close> removes exactly the entries of the subscribers of the
  friend whose open socket threw on send, and nothing is logged for them; every other
  open subscriber of the friend keeps its entry and is sent the update exactly once,
  whatever happened to the others; a connection that is not an open subscriber of the
  friend is sent nothing and keeps its entry. Nothing but the update is sent to anyone,
  the store and the connections' identities are untouched, and the function returns
  normally in every case. The update is the message naming the friend with the given
  status and \<open>lastSeen\<close> and a \<open>null\<close> metadata.
\<close>

theorem notifySubscribers_best_effort:
  "distinct (map fst (subscriptions w)) \<longrightarrow>
     subscriptions (notifySubscribers w friendId st ls) =
       filter (\<lambda>p. \<not> (friendId \<in> snd p \<and> readyOpen w (fst p) \<and> sendThrows w (fst p)))
         (subscriptions w)
     \<and> (\<forall>ws friendIds. (ws, friendIds) \<in> set (subscriptions w) \<and> friendId \<in> friendIds
            \<and> readyOpen w ws \<and> sendThrows w ws \<longrightarrow>
          map_of (subscriptions (notifySubscribers w friendId st ls)) ws = None
          \<and> deliveredTo w (notifySubscribers w friendId st ls) ws = [])
     \<and> (\<forall>ws friendIds. (ws, friendIds) \<in> set (subscriptions w) \<and> friendId \<in> friendIds
            \<and> readyOpen w ws \<and> \<not> sendThrows w ws \<longrightarrow>
          map_of (subscriptions (notifySubscribers w friendId st ls)) ws = Some friendIds
          \<and> deliveredTo w (notifySubscribers w friendId st ls) ws = [presenceUpdate friendId st ls])
     \<and> (\<forall>ws. (\<forall>friendIds. (ws, friendIds) \<in> set (subscriptions w) \<longrightarrow>
                   friendId \<notin> friendIds \<or> \<not> readyOpen w ws) \<longrightarrow>
          map_of (subscriptions (notifySubscribers w friendId st ls)) ws = map_of (subscriptions w) ws
          \<and> deliveredTo w (notifySubscribers w friendId st ls) ws = [])
     \<and> (\<exists>new. sent (notifySubscribers w friendId st ls) = sent w @ new
            \<and> (\<forall>m \<in> set new. snd m = presenceUpdate friendId st ls))
     \<and> store (notifySubscribers w friendId st ls) = store w
     \<and> connUserId (notifySubscribers w friendId st ls) = connUserId w
     \<and> presenceUpdate friendId st ls =
         FriendsPresenceUpdate
           [\<lparr>entryUserId = friendId, entryStatus = st, entryLastSeen = ls,
             entryMetadata = JNull\<rparr>]"
proof (intro impI conjI allI)
  assume d: "distinct (map fst (subscriptions w))"
  let ?w' = "notifySubscribers w friendId st ls"
  let ?keep = "\<lambda>p. \<not> (friendId \<in> snd p \<and> readyOpen w (fst p) \<and> sendThrows w (fst p))"
  show subs: "subscriptions ?w' = filter ?keep (subscriptions w)"
    by (rule notifySubscribers_subscriptions [OF d])
  {
    fix ws friendIds
    assume a: "(ws, friendIds) \<in> set (subscriptions w) \<and> friendId \<in> friendIds
            \<and> readyOpen w ws \<and> sendThrows w ws"
    then have k: "filter (\<lambda>p. fst p = ws) (subscriptions w) = [(ws, friendIds)]"
      using filter_key_unique [OF d] by blast
    from a show "map_of (subscriptions ?w') ws = None"
      unfolding subs using map_of_filter_drop [OF d, of ws friendIds ?keep] by simp
    from a show "deliveredTo w ?w' ws = []"
      by (simp add: deliveredTo_notifySubscribers k)
  }
  {
    fix ws friendIds
    assume a: "(ws, friendIds) \<in> set (subscriptions w) \<and> friendId \<in> friendIds
            \<and> readyOpen w ws \<and> \<not> sendThrows w ws"
    then have k: "filter (\<lambda>p. fst p = ws) (subscriptions w) = [(ws, friendIds)]"
      using filter_key_unique [OF d] by blast
    from a show "map_of (subscriptions ?w') ws = Some friendIds"
      unfolding subs using map_of_filter_keep [OF d, of ws friendIds ?keep] by simp
    from a show "deliveredTo w ?w' ws = [presenceUpdate friendId st ls]"
      by (simp add: deliveredTo_notifySubscribers k)
  }
  {
    fix ws
    assume a: "\<forall>friendIds. (ws, friendIds) \<in> set (subscriptions w) \<longrightarrow>
                   friendId \<notin> friendIds \<or> \<not> readyOpen w ws"
    then show "map_of (subscriptions ?w') ws = map_of (subscriptions w) ws"
      unfolding subs by (intro map_of_filter_same) auto
    from a have "filter (\<lambda>p. friendId \<in> snd p \<and> readyOpen w (fst p) \<and> \<not> sendThrows w (fst p))
                   (filter (\<lambda>p. fst p = ws) (subscriptions w)) = []"
      by (auto simp: filter_empty_conv)
    then show "deliveredTo w ?w' ws = []"
      by (simp add: deliveredTo_notifySubscribers)
  }
  show "\<exists>new. sent ?w' = sent w @ new \<and> (\<forall>m \<in> set new. snd m = presenceUpdate friendId st ls)"
    by (auto simp: notifySubscribers_result)
  show "store ?w' = store w" "connUserId ?w' = connUserId w"
    by (simp_all add: notifySubscribers_frame)
  show "presenceUpdate friendId st ls =
         FriendsPresenceUpdate
           [\<lparr>entryUserId = friendId, entryStatus = st, entryLastSeen = ls,
             entryMetadata = JNull\<rparr>]"
    by (simp add: presenceUpdate_def)
qed

theorem notifySubscribers_best_effort_witness:
  "distinct (map fst (subscriptions staleWorld))
   \<and> (1, {''p''}) \<in> set (subscriptions staleWorld) \<and> readyOpen staleWorld 1 \<and> sendThrows staleWorld 1
   \<and> (2, {''p'', ''q''}) \<in> set (subscriptions staleWorld) \<and> readyOpen staleWorld 2
   \<and> \<not> sendThrows staleWorld 2
   \<and> subscriptions (notifySubscribers staleWorld ''p'' (JStr ''away'') 4000)
        = [(2, {''p'', ''q''}), (3, {''q''})]
   \<and> deliveredTo staleWorld (notifySubscribers staleWorld ''p'' (JStr ''away'') 4000) 1 = []
   \<and> deliveredTo staleWorld (notifySubscribers staleWorld ''p'' (JStr ''away'') 4000) 2
        = [FriendsPresenceUpdate
             [\<lparr>entryUserId = ''p'', entryStatus = JStr ''away'', entryLastSeen = 4000,
               entryMetadata = JNull\<rparr>]]
   \<and> deliveredTo staleWorld (notifySubscribers staleWorld ''p'' (JStr ''away'') 4000) 3 = []"
  using notifySubscribers_best_effort [of staleWorld "''p''" "JStr ''away''" 4000]
  by (simp add: staleWorld_def sampleWorld_def freshWorld_def deliveredTo_def notifySubscribers_def
        wsSend_def presenceUpdate_def)

lemma ttlArg_frame: "ttlArg (w\<lparr>connUserId := c\<rparr>) msg = ttlArg w msg"
  by (simp add: ttlArg_def split: json.splits)

lemma wsHeartbeat_string:
  "wsHeartbeat w ws msg (JStr uid) =
     (let w1 = w\<lparr>connUserId := (connUserId w)(ws := Some (JStr uid))\<rparr>;
          up = upsert w1 uid (orElse (getProp msg ''status'') (JStr ''online''))
                 (Some (ttlArg w msg)) (Some (orElse (getProp msg ''metadata'') (JObj [])))
      in if sendThrows w ws then Inl (snd up)
         else Inr (notifySubscribers (snd up\<lparr>sent := sent w @ [(ws, HeartbeatAck uid)]\<rparr>) uid
                     (if isOnline (fst up) then status (fst up) else JStr ''offline'')
                     (lastSeen (fst up))))"
  by (simp add: wsHeartbeat_def Let_def upsert_world wsSend_def ttlArg_frame)







section \<open>Closing a connection\<close>

lemma lastSeenOrNow_world: "\<exists>n. snd (lastSeenOrNow r w) = w\<lparr>ticks := n\<rparr>"
proof (cases "\<exists>a. r = Some a \<and> lastSeen a \<noteq> 0")
  case True
  then have "snd (lastSeenOrNow r w) = w\<lparr>ticks := ticks w\<rparr>"
    by (auto simp: lastSeenOrNow_def)
  then show ?thesis by (rule exI)
next
  case False
  then have "snd (lastSeenOrNow r w) = w\<lparr>ticks := Suc (ticks w)\<rparr>"
    by (cases r) (auto simp: lastSeenOrNow_def dateNow_def)
  then show ?thesis by (rule exI)
qed

lemma wsOnClose_string:
  assumes "connUserId w ws = Some (JStr u)"
  shows "\<exists>n m. m u = None \<and>
           wsOnClose w ws =
             notifySubscribers
               (w\<lparr>subscriptions := AList.delete ws (subscriptions w), ticks := n, store := m\<rparr>)
               u (JStr ''offline'')
               (fst (lastSeenOrNow
                       (fst (getOne (w\<lparr>subscriptions := AList.delete ws (subscriptions w)\<rparr>) u))
                       (snd (getOne (w\<lparr>subscriptions := AList.delete ws (subscriptions w)\<rparr>) u))))"
proof -
  let ?w1 = "w\<lparr>subscriptions := AList.delete ws (subscriptions w)\<rparr>"
  obtain n2 m2 where w2: "snd (getOne ?w1 u) = ?w1\<lparr>ticks := n2, store := m2\<rparr>"
    using getOne_world [of ?w1 u] by blast
  obtain n3 where w3: "snd (lastSeenOrNow (fst (getOne ?w1 u)) (?w1\<lparr>ticks := n2, store := m2\<rparr>))
                        = (?w1\<lparr>ticks := n2, store := m2\<rparr>)\<lparr>ticks := n3\<rparr>"
    using lastSeenOrNow_world by blast
  let ?ls = "fst (lastSeenOrNow (fst (getOne ?w1 u)) (snd (getOne ?w1 u)))"
  have "wsOnClose w ws =
          notifySubscribers
            (w\<lparr>subscriptions := AList.delete ws (subscriptions w), ticks := n3,
               store := m2(u := None)\<rparr>) u (JStr ''offline'') ?ls"
    using assms by (simp add: wsOnClose_def Let_def case_prod_beta markOffline_def w2 w3)
  moreover have "(m2(u := None)) u = None" by simp
  ultimately show ?thesis by blast
qed

lemma map_of_filter_delete: "map_of (filter P (AList.delete k al)) k = None"
  by (induction al) auto

text \<open>
  C6. Closing a connection always removes its registry entry, whether or not it ever
  identified; an anonymous connection's close does nothing else. When the connection had
  identified as user \<open>u\<close> (and the registry is keyed by connection), the close also
  removes \<open>u\<close>'s record, so that \<open>getOne\<close> then gives absent; the closing connection
  itself is sent nothing; and every other connection that holds \<open>u\<close> in its subscription
  and whose open socket accepts sends is sent exactly one message: the update naming \<open>u\<close>
  alone, with status \<open>offline\<close>, a \<open>null\<close> metadata and, as \<open>lastSeen\<close>, that of the record
  read just before its removal, or the clock when there was none.
\<close>

theorem close_cleans_up:
  "map_of (subscriptions (wsOnClose w ws)) ws = None
   \<and> (connUserId w ws = None \<longrightarrow>
        wsOnClose w ws = w\<lparr>subscriptions := AList.delete ws (subscriptions w)\<rparr>)
   \<and> (\<forall>u. connUserId w ws = Some (JStr u) \<and> distinct (map fst (subscriptions w)) \<longrightarrow>
         store (wsOnClose w ws) u = None
         \<and> getOne (wsOnClose w ws) u = (None, wsOnClose w ws)
         \<and> deliveredTo w (wsOnClose w ws) ws = []
         \<and> (\<forall>c friends.
                c \<noteq> ws \<and> (c, friends) \<in> set (subscriptions w) \<and> u \<in> friends
                \<and> readyOpen w c \<and> \<not> sendThrows w c \<longrightarrow>
                deliveredTo w (wsOnClose w ws) c =
                  [FriendsPresenceUpdate
                     [\<lparr>entryUserId = u, entryStatus = JStr ''offline'',
                       entryLastSeen =
                         fst (lastSeenOrNow
                                (fst (getOne (w\<lparr>subscriptions := AList.delete ws (subscriptions w)\<rparr>) u))
                                (snd (getOne (w\<lparr>subscriptions := AList.delete ws (subscriptions w)\<rparr>) u))),
                       entryMetadata = JNull\<rparr>]]))"
proof (intro conjI impI allI)
  show "map_of (subscriptions (wsOnClose w ws)) ws = None"
  proof (cases "connUserId w ws")
    case None
    then show ?thesis by (simp add: wsOnClose_def delete_conv')
  next
    case (Some v)
    show ?thesis
    proof (cases "\<exists>u. v = JStr u")
      case True
      then obtain u where "connUserId w ws = Some (JStr u)" using Some by blast
      from wsOnClose_string [OF this] show ?thesis
        by (auto simp: notifySubscribers_result map_of_filter_delete)
    next
      case False
      with Some show ?thesis
        by (cases v) (simp_all add: wsOnClose_def dateNow_def delete_conv')
    qed
  qed
next
  assume "connUserId w ws = None"
  then show "wsOnClose w ws = w\<lparr>subscriptions := AList.delete ws (subscriptions w)\<rparr>"
    by (simp add: wsOnClose_def)
next
  fix u
  assume a: "connUserId w ws = Some (JStr u) \<and> distinct (map fst (subscriptions w))"
  then have d: "distinct (map fst (subscriptions w))" by simp
  let ?ls = "fst (lastSeenOrNow
                    (fst (getOne (w\<lparr>subscriptions := AList.delete ws (subscriptions w)\<rparr>) u))
                    (snd (getOne (w\<lparr>subscriptions := AList.delete ws (subscriptions w)\<rparr>) u)))"
  from a obtain n m where m: "m u = None"
    and r: "wsOnClose w ws =
             notifySubscribers
               (w\<lparr>subscriptions := AList.delete ws (subscriptions w), ticks := n, store := m\<rparr>)
               u (JStr ''offline'') ?ls"
    using wsOnClose_string [of w ws u] by blast
  let ?w4 = "w\<lparr>subscriptions := AList.delete ws (subscriptions w), ticks := n, store := m\<rparr>"
  show s: "store (wsOnClose w ws) u = None"
    using m by (simp add: r notifySubscribers_frame)
  then show "getOne (wsOnClose w ws) u = (None, wsOnClose w ws)"
    by (simp add: getOne_def)
  have dl: "\<And>c. deliveredTo w (wsOnClose w ws) c =
              map (\<lambda>p. presenceUpdate u (JStr ''offline'') ?ls)
                (filter (\<lambda>p. u \<in> snd p \<and> readyOpen w (fst p) \<and> \<not> sendThrows w (fst p))
                   (filter (\<lambda>p. fst p = c) (AList.delete ws (subscriptions w))))"
    using deliveredTo_notifySubscribers [of ?w4 u "JStr ''offline''" ?ls]
    by (simp add: r deliveredTo_def)
  have "filter (\<lambda>p. fst p = ws) (AList.delete ws (subscriptions w)) = []"
    by (auto simp: filter_empty_conv AList.delete_eq)
  then show "deliveredTo w (wsOnClose w ws) ws = []"
    by (simp add: dl)
  fix c friends
  assume h: "c \<noteq> ws \<and> (c, friends) \<in> set (subscriptions w) \<and> u \<in> friends
        \<and> readyOpen w c \<and> \<not> sendThrows w c"
  then have mem: "(c, friends) \<in> set (AList.delete ws (subscriptions w))"
    by (auto simp: AList.delete_eq)
  have dd: "distinct (map fst (AList.delete ws (subscriptions w)))"
    using d by (rule distinct_delete)
  have "filter (\<lambda>p. fst p = c) (AList.delete ws (subscriptions w)) = [(c, friends)]"
    by (rule filter_key_unique [OF dd mem])
  with h have "deliveredTo w (wsOnClose w ws) c = [presenceUpdate u (JStr ''offline'') ?ls]"
    by (simp add: dl)
  then show "deliveredTo w (wsOnClose w ws) c =
                  [FriendsPresenceUpdate
                     [\<lparr>entryUserId = u, entryStatus = JStr ''offline'', entryLastSeen = ?ls,
                       entryMetadata = JNull\<rparr>]]"
    by (simp only: presenceUpdate_def)
qed

theorem close_cleans_up_witness:
  "connUserId lobbyWorld 1 = Some (JStr ''p'') \<and> distinct (map fst (subscriptions lobbyWorld))
   \<and> (2, {''p'', ''q''}) \<in> set (subscriptions lobbyWorld) \<and> readyOpen lobbyWorld 2
   \<and> \<not> sendThrows lobbyWorld 2
   \<and> store lobbyWorld ''p'' \<noteq> None
   \<and> store (wsOnClose lobbyWorld 1) ''p'' = None
   \<and> fst (getOne (wsOnClose lobbyWorld 1) ''p'') = None
   \<and> subscriptions (wsOnClose lobbyWorld 1) = [(2, {''p'', ''q''}), (3, {''q''})]
   \<and> deliveredTo lobbyWorld (wsOnClose lobbyWorld 1) 1 = []
   \<and> deliveredTo lobbyWorld (wsOnClose lobbyWorld 1) 2
       = [FriendsPresenceUpdate
            [\<lparr>entryUserId = ''p'', entryStatus = JStr ''offline'', entryLastSeen = 4000,
              entryMetadata = JNull\<rparr>]]
   \<and> deliveredTo lobbyWorld (wsOnClose lobbyWorld 1) 3 = []
   \<and> connUserId lobbyWorld 3 = None
   \<and> subscriptions (wsOnClose lobbyWorld 3) = [(1, {''p''}), (2, {''p'', ''q''})]
   \<and> store (wsOnClose lobbyWorld 3) = store lobbyWorld
   \<and> sent (wsOnClose lobbyWorld 3) = sent lobbyWorld"
  using close_cleans_up [of lobbyWorld 1] close_cleans_up [of lobbyWorld 3]
  by (simp add: lobbyWorld_def freshWorld_def wsOnClose_def getOne_cases toSnapshot_def dateNow_def
        lastSeenOrNow_def markOffline_def notifySubscribers_def wsSend_def deliveredTo_def
        presenceUpdate_def)

section \<open>Inbound messages\<close>

lemma wsCatch_ok: "\<not> sendThrows w ws \<Longrightarrow> wsCatch w ws = (Returned, w\<lparr>sent := sent w @ [(ws, ErrorReply)]\<rparr>)"
  by (simp add: wsCatch_def wsSend_def)

lemma case_not_array:
  "\<not> isArray v \<Longrightarrow> (case v of Some (JArr arr) \<Rightarrow> f arr | _ \<Rightarrow> d) = d"
  by (simp add: isArray_def split: option.splits json.splits)

lemma wsDispatch_ignored: "unknownType msg \<or> lacksRequired msg \<Longrightarrow> wsDispatch w ws msg = Inr w"
proof (erule disjE)
  assume "unknownType msg"
  then show ?thesis by (simp add: wsDispatch_def unknownType_def)
next
  assume "lacksRequired msg"
  then show ?thesis
    unfolding lacksRequired_def
    by (elim disjE conjE) (simp_all add: wsDispatch_def case_not_array)
qed

lemma wsServerDispatch_ignored:
  "unknownType msg \<or> lacksRequired msg \<or> getProp msg ''type'' = Some (JStr ''unsubscribe-friends'')
     \<Longrightarrow> wsServerDispatch w ws msg = Inr w"
proof (elim disjE)
  assume "unknownType msg"
  then show ?thesis by (simp add: wsServerDispatch_def unknownType_def)
next
  assume "lacksRequired msg"
  then show ?thesis
    unfolding lacksRequired_def
    by (elim disjE conjE) (simp_all add: wsServerDispatch_def case_not_array)
next
  assume "getProp msg ''type'' = Some (JStr ''unsubscribe-friends'')"
  then show ?thesis by (simp add: wsServerDispatch_def)
qed

lemma onMessage_dispatch:
  "msg \<noteq> JNull \<Longrightarrow>
     wsOnMessage w ws (Some msg) =
       (case wsDispatch w ws msg of Inl w1 \<Rightarrow> wsCatch w1 ws | Inr w1 \<Rightarrow> (Returned, w1))"
  "msg \<noteq> JNull \<Longrightarrow>
     wsServerOnMessage w ws (Some msg) =
       (case wsServerDispatch w ws msg of Inl w1 \<Rightarrow> wsCatch w1 ws | Inr w1 \<Rightarrow> (Returned, w1))"
  by (cases msg; simp add: wsOnMessage_def wsServerOnMessage_def)+

text \<open>
  On a connection whose socket accepts sends no branch of either handler throws, so the
  listener returns normally whatever the message is.
\<close>

lemma wsHeartbeat_returns:
  "\<not> sendThrows w ws \<Longrightarrow> \<exists>w'. wsHeartbeat w ws msg v = Inr w'"
  by (cases v) (simp_all add: wsHeartbeat_string Let_def, simp_all add: wsHeartbeat_def)

lemma wsOffline_returns: "\<exists>w'. wsOffline w ws v = Inr w'"
  by (cases v) (simp_all add: wsOffline_def Let_def case_prod_beta)

lemma wsQueryPresence_returns:
  "\<not> sendThrows w ws \<Longrightarrow> \<exists>w'. wsQueryPresence w ws msg arr = Inr w'"
  by (simp add: wsQueryPresence_def case_prod_beta wsSend_def getMany_frame)

lemma wsSubscribeFriends_returns:
  "\<not> sendThrows w ws \<Longrightarrow> \<exists>w'. wsSubscribeFriends w ws arr = Inr w'"
  by (simp add: wsSubscribeFriends_def Let_def case_prod_beta wsSend_def getMany_frame)

lemma wsDispatch_returns:
  assumes "\<not> sendThrows w ws"
  shows "\<exists>w'. wsDispatch w ws msg = Inr w'"
  using wsHeartbeat_returns [OF assms, of msg "the (getProp msg ''userId'')"]
    wsOffline_returns [of w ws "the (getProp msg ''userId'')"]
    wsQueryPresence_returns [OF assms, of msg] wsSubscribeFriends_returns [OF assms]
  by (simp add: wsDispatch_def split: option.splits json.splits)

lemma wsServerDispatch_returns:
  assumes "\<not> sendThrows w ws"
  shows "\<exists>w'. wsServerDispatch w ws msg = Inr w'"
  using assms
  by (simp add: wsServerDispatch_def Let_def upsert_world wsSend_def case_prod_beta getMany_frame
        wsQueryPresence_def split: json.splits option.splits)

lemma onMessage_returns:
  assumes "\<not> sendThrows w ws"
  shows "fst (wsOnMessage w ws parsed) = Returned"
    and "fst (wsServerOnMessage w ws parsed) = Returned"
proof -
  show "fst (wsOnMessage w ws parsed) = Returned"
  proof (cases "parsed = None \<or> parsed = Some JNull")
    case True
    then show ?thesis using assms by (auto simp: wsOnMessage_def wsCatch_ok)
  next
    case False
    then obtain msg where m: "parsed = Some msg" "msg \<noteq> JNull" by auto
    obtain w' where "wsDispatch w ws msg = Inr w'" using wsDispatch_returns [OF assms] by blast
    with m show ?thesis by (simp add: onMessage_dispatch)
  qed
  show "fst (wsServerOnMessage w ws parsed) = Returned"
  proof (cases "parsed = None \<or> parsed = Some JNull")
    case True
    then show ?thesis using assms by (auto simp: wsServerOnMessage_def wsCatch_ok)
  next
    case False
    then obtain msg where m: "parsed = Some msg" "msg \<noteq> JNull" by auto
    obtain w' where "wsServerDispatch w ws msg = Inr w'"
      using wsServerDispatch_returns [OF assms] by blast
    with m show ?thesis by (simp add: onMessage_dispatch)
  qed
qed

text \<open>
  C4, as the code has it. On either socket server, a message that fails to parse, or
  parses to \<open>null\<close>, is answered with the one generic error reply on its own connection,
  nothing else changes, and the listener returns normally. A parsed message whose
  \<open>type\<close> is unknown, or whose \<open>type\<close> is known but whose required field fails the
  branch's guard (a missing or falsy \<open>userId\<close>, a \<open>userIds\<close> or \<open>friendIds\<close> that is not an
  array), is ignored: no reply, no error, no change of state, and the listener returns
  normally, also on a socket that would refuse a send. The replies are those of a socket
  that accepts them; on such a socket the listener returns normally for every message
  whatever.
\<close>

theorem malformed_messages:
  "(\<not> sendThrows w ws \<longrightarrow>
      wsOnMessage w ws None = (Returned, w\<lparr>sent := sent w @ [(ws, ErrorReply)]\<rparr>)
      \<and> wsOnMessage w ws (Some JNull) = (Returned, w\<lparr>sent := sent w @ [(ws, ErrorReply)]\<rparr>)
      \<and> wsServerOnMessage w ws None = (Returned, w\<lparr>sent := sent w @ [(ws, ErrorReply)]\<rparr>)
      \<and> wsServerOnMessage w ws (Some JNull) = (Returned, w\<lparr>sent := sent w @ [(ws, ErrorReply)]\<rparr>)
      \<and> fst (wsOnMessage w ws parsed) = Returned
      \<and> fst (wsServerOnMessage w ws parsed) = Returned)
   \<and> (msg \<noteq> JNull \<and> (unknownType msg \<or> lacksRequired msg) \<longrightarrow>
        wsOnMessage w ws (Some msg) = (Returned, w)
        \<and> wsServerOnMessage w ws (Some msg) = (Returned, w))"
proof (intro conjI impI)
  assume s: "\<not> sendThrows w ws"
  then show "wsOnMessage w ws None = (Returned, w\<lparr>sent := sent w @ [(ws, ErrorReply)]\<rparr>)"
    "wsOnMessage w ws (Some JNull) = (Returned, w\<lparr>sent := sent w @ [(ws, ErrorReply)]\<rparr>)"
    "wsServerOnMessage w ws None = (Returned, w\<lparr>sent := sent w @ [(ws, ErrorReply)]\<rparr>)"
    "wsServerOnMessage w ws (Some JNull) = (Returned, w\<lparr>sent := sent w @ [(ws, ErrorReply)]\<rparr>)"
    by (simp_all add: wsOnMessage_def wsServerOnMessage_def wsCatch_ok)
  from s show "fst (wsOnMessage w ws parsed) = Returned"
    by (rule onMessage_returns(1))
  from s show "fst (wsServerOnMessage w ws parsed) = Returned"
    by (rule onMessage_returns(2))
next
  assume a: "msg \<noteq> JNull \<and> (unknownType msg \<or> lacksRequired msg)"
  then show "wsOnMessage w ws (Some msg) = (Returned, w)"
    by (simp add: onMessage_dispatch wsDispatch_ignored)
  from a have "wsServerDispatch w ws msg = Inr w"
    by (intro wsServerDispatch_ignored) blast
  with a show "wsServerOnMessage w ws (Some msg) = (Returned, w)"
    by (simp add: onMessage_dispatch)
qed

text \<open>
  C4 as stated fails: a heartbeat without \<open>userId\<close> lacks a required field, yet no error
  reply is sent; the message is dropped like one of unknown type.
\<close>

theorem missing_userId_counterexample:
  "lacksRequired (JObj [(''type'', JStr ''heartbeat''), (''status'', JStr ''away'')])
   \<and> \<not> sendThrows sampleWorld 1
   \<and> wsOnMessage sampleWorld 1 (Some (JObj [(''type'', JStr ''heartbeat''), (''status'', JStr ''away'')]))
       = (Returned, sampleWorld)
   \<and> wsServerOnMessage sampleWorld 1
        (Some (JObj [(''type'', JStr ''heartbeat''), (''status'', JStr ''away'')]))
       = (Returned, sampleWorld)
   \<and> deliveredTo sampleWorld
        (snd (wsOnMessage sampleWorld 1
               (Some (JObj [(''type'', JStr ''heartbeat''), (''status'', JStr ''away'')])))) 1 = []"
  by (simp add: lacksRequired_def isTruthy_def wsOnMessage_def wsServerOnMessage_def wsDispatch_def
        wsServerDispatch_def deliveredTo_def sampleWorld_def freshWorld_def)

theorem malformed_messages_witness:
  "\<not> sendThrows sampleWorld 1
   \<and> sent (snd (wsOnMessage sampleWorld 1 None)) = [(1, ErrorReply)]
   \<and> fst (wsOnMessage sampleWorld 1 None) = Returned
   \<and> unknownType (JObj [(''type'', JStr ''ping'')])
   \<and> wsOnMessage sampleWorld 1 (Some (JObj [(''type'', JStr ''ping'')])) = (Returned, sampleWorld)
   \<and> lacksRequired (JObj [(''type'', JStr ''query-presence''), (''userIds'', JStr ''a'')])
   \<and> wsServerOnMessage sampleWorld 1
        (Some (JObj [(''type'', JStr ''query-presence''), (''userIds'', JStr ''a'')]))
       = (Returned, sampleWorld)
   \<and> lacksRequired (JObj [(''type'', JStr ''heartbeat''), (''userId'', JStr [])])
   \<and> wsOnMessage sampleWorld 1 (Some (JObj [(''type'', JStr ''heartbeat''), (''userId'', JStr [])]))
       = (Returned, sampleWorld)
   \<and> lacksRequired (JObj [(''type'', JStr ''offline''), (''userId'', JNum 0)])
   \<and> sendThrows staleWorld 1
   \<and> wsOnMessage staleWorld 1 (Some (JObj [(''type'', JStr ''offline''), (''userId'', JNum 0)]))
       = (Returned, staleWorld)"
  using malformed_messages [of sampleWorld 1 None "JObj [(''type'', JStr ''ping'')]"]
    malformed_messages [of sampleWorld 1 None
      "JObj [(''type'', JStr ''query-presence''), (''userIds'', JStr ''a'')]"]
    malformed_messages [of sampleWorld 1 None "JObj [(''type'', JStr ''heartbeat''), (''userId'', JStr [])]"]
    malformed_messages [of staleWorld 1 None "JObj [(''type'', JStr ''offline''), (''userId'', JNum 0)]"]
  by (simp add: unknownType_def lacksRequired_def isArray_def isTruthy_def staleWorld_def
        sampleWorld_def freshWorld_def)

text \<open>
  When the socket rejects the send, the error reply of the \<open>catch\<close> block throws in turn
  and the exception leaves the listener; a heartbeat whose acknowledgement is rejected
  has by then written its record.
\<close>

lemma rejected_reply_escapes:
  assumes "sendThrows w ws"
  shows "wsOnMessage w ws None = (Uncaught, w)"
    and "getProp msg ''type'' = Some (JStr ''heartbeat'') \<Longrightarrow> getProp msg ''userId'' = Some (JStr uid)
           \<Longrightarrow> uid \<noteq> [] \<Longrightarrow>
         fst (wsOnMessage w ws (Some msg)) = Uncaught
         \<and> store (snd (wsOnMessage w ws (Some msg))) uid \<noteq> None
         \<and> sent (snd (wsOnMessage w ws (Some msg))) = sent w"
proof -
  show "wsOnMessage w ws None = (Uncaught, w)"
    using assms by (simp add: wsOnMessage_def wsCatch_def wsSend_def)
next
  assume a: "getProp msg ''type'' = Some (JStr ''heartbeat'')"
    "getProp msg ''userId'' = Some (JStr uid)" "uid \<noteq> []"
  let ?w1 = "w\<lparr>connUserId := (connUserId w)(ws := Some (JStr uid))\<rparr>"
  let ?up = "upsert ?w1 uid (orElse (getProp msg ''status'') (JStr ''online''))
                 (Some (ttlArg w msg)) (Some (orElse (getProp msg ''metadata'') (JObj [])))"
  from a have notnull: "msg \<noteq> JNull" by auto
  from a assms have "wsDispatch w ws msg = Inl (snd ?up)"
    by (simp add: wsDispatch_def isTruthy_def wsHeartbeat_string Let_def)
  with notnull have "wsOnMessage w ws (Some msg) = wsCatch (snd ?up) ws"
    by (simp add: onMessage_dispatch)
  moreover have "sendThrows (snd ?up) ws" using assms by (simp add: upsert_world)
  ultimately have "wsOnMessage w ws (Some msg) = (Uncaught, snd ?up)"
    by (simp add: wsCatch_def wsSend_def)
  then show "fst (wsOnMessage w ws (Some msg)) = Uncaught
         \<and> store (snd (wsOnMessage w ws (Some msg))) uid \<noteq> None
         \<and> sent (snd (wsOnMessage w ws (Some msg))) = sent w"
    by (simp add: upsert_world)
qed

section \<open>Writes and broadcasts\<close>






section \<open>Invariants of the running process\<close>

text \<open>
  The theorems above assume, where they need it, that records sit under their own id
  and that the registry holds each connection once. Both hold when the process starts
  and every handler keeps them, so they hold in every state the process reaches.
\<close>

lemma wellFormed_frame [simp]:
  "wellFormed (w\<lparr>sent := x\<rparr>) = wellFormed w"
  "wellFormed (w\<lparr>ticks := n\<rparr>) = wellFormed w"
  "wellFormed (w\<lparr>connUserId := c\<rparr>) = wellFormed w"
  by (simp_all add: wellFormed_def recordKeyed_def)

lemma wellFormed_freshWorld: "wellFormed freshWorld"
  by (simp add: wellFormed_def recordKeyed_def freshWorld_def)

lemma wellFormed_upsert: "wellFormed w \<Longrightarrow> wellFormed (snd (upsert w uid st ttl md))"
  by (simp add: upsert_world wellFormed_def recordKeyed_def)

lemma wellFormed_markOffline: "wellFormed w \<Longrightarrow> wellFormed (markOffline w uid)"
  by (simp add: markOffline_def wellFormed_def recordKeyed_def)

lemma wellFormed_shrink:
  assumes "wellFormed w" and "\<forall>v r. m v = Some r \<longrightarrow> store w v = Some r"
  shows "wellFormed (w\<lparr>ticks := n, store := m\<rparr>)"
  using assms by (simp add: wellFormed_def recordKeyed_def)

lemma wellFormed_getOne: "wellFormed w \<Longrightarrow> wellFormed (snd (getOne w uid))"
proof -
  assume wf: "wellFormed w"
  obtain n m where "snd (getOne w uid) = w\<lparr>ticks := n, store := m\<rparr>"
    and "\<forall>v r. m v = Some r \<longrightarrow> store w v = Some r"
    using getOne_world [of w uid] by blast
  with wf show ?thesis by (simp add: wellFormed_shrink)
qed

lemma wellFormed_getEach: "wellFormed w \<Longrightarrow> wellFormed (snd (getEach w uids))"
  by (induction uids arbitrary: w) (simp_all add: getEach_Cons wellFormed_getOne del: getEach.simps(2))

lemma wellFormed_getMany: "wellFormed w \<Longrightarrow> wellFormed (snd (getMany w ids))"
  by (simp add: getMany_proj wellFormed_getEach)

lemma wellFormed_lastSeenOrNow: "wellFormed w \<Longrightarrow> wellFormed (snd (lastSeenOrNow r w))"
proof -
  assume wf: "wellFormed w"
  obtain n where "snd (lastSeenOrNow r w) = w\<lparr>ticks := n\<rparr>"
    using lastSeenOrNow_world by blast
  with wf show ?thesis by simp
qed

lemma wellFormed_delete:
  "wellFormed w \<Longrightarrow> wellFormed (w\<lparr>subscriptions := AList.delete ws (subscriptions w)\<rparr>)"
  by (simp add: wellFormed_def recordKeyed_def distinct_delete)

lemma wellFormed_notifySubscribers:
  "wellFormed w \<Longrightarrow> wellFormed (notifySubscribers w f st ls)"
  by (simp add: notifySubscribers_result wellFormed_def recordKeyed_def distinct_map_filter)

lemma wellFormed_wsSend: "wsSend w ws m = Some w1 \<Longrightarrow> wellFormed w \<Longrightarrow> wellFormed w1"
  by (auto simp: wsSend_def split: if_splits)

lemma wellFormed_wsCatch: "wellFormed w \<Longrightarrow> wellFormed (snd (wsCatch w ws))"
  by (simp add: wsCatch_def wsSend_def)

lemma wellFormed_wsHeartbeat:
  assumes "wellFormed w"
  shows "wellFormed (case wsHeartbeat w ws msg uidV of Inl w1 \<Rightarrow> w1 | Inr w1 \<Rightarrow> w1)"
proof (cases "\<exists>uid. uidV = JStr uid")
  case True
  then obtain uid where u: "uidV = JStr uid" by blast
  let ?w1 = "w\<lparr>connUserId := (connUserId w)(ws := Some (JStr uid))\<rparr>"
  let ?up = "upsert ?w1 uid (orElse (getProp msg ''status'') (JStr ''online''))
                 (Some (ttlArg w msg)) (Some (orElse (getProp msg ''metadata'') (JObj [])))"
  have "wellFormed (snd ?up)" using assms by (simp add: wellFormed_upsert)
  then show ?thesis
    unfolding u by (simp add: wsHeartbeat_string Let_def wellFormed_notifySubscribers)
next
  case False
  with assms show ?thesis by (cases uidV) (simp_all add: wsHeartbeat_def)
qed

lemma wellFormed_wsOffline:
  assumes "wellFormed w"
  shows "wellFormed (case wsOffline w ws uidV of Inl w1 \<Rightarrow> w1 | Inr w1 \<Rightarrow> w1)"
proof (cases "\<exists>uid. uidV = JStr uid")
  case True
  then obtain uid where u: "uidV = JStr uid" by blast
  let ?w1 = "w\<lparr>connUserId := (connUserId w)(ws := Some (JStr uid))\<rparr>"
  have "wellFormed (markOffline (snd (lastSeenOrNow (fst (getOne ?w1 uid)) (snd (getOne ?w1 uid)))) uid)"
    using assms by (simp add: wellFormed_markOffline wellFormed_lastSeenOrNow wellFormed_getOne)
  then show ?thesis
    unfolding u by (simp add: wsOffline_def Let_def case_prod_beta wellFormed_notifySubscribers)
next
  case False
  with assms show ?thesis by (cases uidV) (simp_all add: wsOffline_def)
qed

lemma wellFormed_wsQueryPresence:
  assumes "wellFormed w"
  shows "wellFormed (case wsQueryPresence w ws msg arr of Inl w1 \<Rightarrow> w1 | Inr w1 \<Rightarrow> w1)"
  using wellFormed_getMany [OF assms, of "onlyStrings arr"]
  by (simp add: wsQueryPresence_def case_prod_beta wsSend_def)

lemma distinct_subscribe:
  assumes "distinct (map fst al)"
  shows "distinct (map fst (case map_of al k of Some sub \<Rightarrow> AList.update k v al
                                              | None \<Rightarrow> al @ [(k, v)]))"
proof (cases "map_of al k")
  case None
  then have "k \<notin> fst ` set al" by (simp add: map_of_eq_None_iff)
  with assms None show ?thesis by simp
next
  case (Some sub)
  with assms show ?thesis by (simp add: distinct_update)
qed

lemma wellFormed_wsSubscribeFriends:
  assumes "wellFormed w"
  shows "wellFormed (case wsSubscribeFriends w ws arr of Inl w1 \<Rightarrow> w1 | Inr w1 \<Rightarrow> w1)"
proof -
  let ?subs = "(case map_of (subscriptions w) ws of
                     Some sub \<Rightarrow> AList.update ws (set (onlyStrings arr)) (subscriptions w)
                   | None \<Rightarrow> subscriptions w @ [(ws, set (onlyStrings arr))])"
  have "wellFormed (w\<lparr>subscriptions := ?subs\<rparr>)"
    using assms distinct_subscribe [of "subscriptions w" ws "set (onlyStrings arr)"]
    by (simp add: wellFormed_def recordKeyed_def)
  then have "wellFormed (snd (getMany (w\<lparr>subscriptions := ?subs\<rparr>) (onlyStrings arr)))"
    by (rule wellFormed_getMany)
  then show ?thesis
    by (simp add: wsSubscribeFriends_def Let_def case_prod_beta wsSend_def)
qed

lemma wellFormed_wsDispatch:
  assumes "wellFormed w"
  shows "wellFormed (case wsDispatch w ws msg of Inl w1 \<Rightarrow> w1 | Inr w1 \<Rightarrow> w1)"
  using assms wellFormed_wsHeartbeat [OF assms] wellFormed_wsOffline [OF assms]
    wellFormed_wsQueryPresence [OF assms] wellFormed_wsSubscribeFriends [OF assms]
    wellFormed_delete [OF assms]
  by (simp add: wsDispatch_def split: option.splits json.splits)

lemma wellFormed_wsOnMessage:
  assumes "wellFormed w"
  shows "wellFormed (snd (wsOnMessage w ws parsed))"
proof (cases "parsed = None \<or> parsed = Some JNull")
  case True
  with assms show ?thesis by (auto simp: wsOnMessage_def wellFormed_wsCatch)
next
  case False
  then obtain msg where m: "parsed = Some msg" "msg \<noteq> JNull" by auto
  show ?thesis
    using wellFormed_wsDispatch [OF assms, of ws msg] m
    by (cases "wsDispatch w ws msg") (simp_all add: onMessage_dispatch wellFormed_wsCatch)
qed

lemma wellFormed_wsOnClose:
  assumes "wellFormed w"
  shows "wellFormed (wsOnClose w ws)"
proof -
  let ?w1 = "w\<lparr>subscriptions := AList.delete ws (subscriptions w)\<rparr>"
  have w1: "wellFormed ?w1" using assms by (rule wellFormed_delete)
  show ?thesis
  proof (cases "connUserId w ws")
    case None
    with w1 show ?thesis by (simp add: wsOnClose_def)
  next
    case (Some v)
    show ?thesis
    proof (cases "\<exists>uid. v = JStr uid")
      case True
      then obtain uid where "v = JStr uid" by blast
      with Some w1 show ?thesis
        by (simp add: wsOnClose_def Let_def case_prod_beta wellFormed_notifySubscribers
              wellFormed_markOffline wellFormed_lastSeenOrNow wellFormed_getOne)
    next
      case False
      with Some w1 show ?thesis
        by (cases v) (simp_all add: wsOnClose_def dateNow_def)
    qed
  qed
qed

lemma wellFormed_http:
  assumes "wellFormed w"
  shows "wellFormed (snd (postPresenceHeartbeat w headerSecret body))"
    and "wellFormed (snd (postPresenceOffline w headerSecret body))"
  using assms
  by (simp_all add: postPresenceHeartbeat_def postPresenceOffline_def Let_def case_prod_beta
        wellFormed_upsert wellFormed_markOffline split: option.splits)

end
